theory Spec2Isabelle
  imports Complex_Main "HOL-Library.Word" "HOL-Library.Signed_Division" "HOL-Library.Char_ord"
begin

section \<open>Data model\<close>

type_synonym byte = "8 word"

text \<open>
  The error values of the two revisions, named after the kinds of the specification.
  The Go code builds them with \<^verbatim>\<open>errors.New\<close> and \<^verbatim>\<open>fmt.Errorf\<close>:
  \<^item> \<open>InvalidNumericString\<close>: "Could not pack number ..., invalid string: ..."
  \<^item> \<open>UnsupportedNumericType\<close>: "Could not pack number ..., invalid type: ..." and
    "Could not pack number, unknown kind: ..."
  \<^item> \<open>TypeMismatch\<close>: "String type is not string", "Bytes type is neither slice nor array"
  \<^item> \<open>InvalidAddress\<close>: "Could not pack element, invalid address: ..."
  \<^item> \<open>UnsupportedElementType\<close>: "Could not pack element, unknown type: ..."
\<close>

datatype error =
    InvalidNumericString
  | UnsupportedNumericType
  | TypeMismatch
  | InvalidAddress
  | UnsupportedElementType

text \<open>
  A call either returns the Go pair \<^verbatim>\<open>([]byte, error)\<close>, with \<open>None\<close> for a nil
  error, or panics.
\<close>

datatype outcome = Return "byte list" "error option" | Panic

text \<open>
  The tag \<^verbatim>\<open>t.T\<close> of an ABI type. The constants are declared in the package's type
  file; the packer branches on the tag only.
\<close>

datatype abi_ty =
    IntTy | UintTy | BoolTy | StringTy | SliceTy | ArrayTy | TupleTy
  | AddressTy | FixedBytesTy | BytesTy | HashTy | FixedPointTy | FunctionTy

text \<open>
  A \<^verbatim>\<open>reflect.Value\<close> is modelled by what the packer can tell of it: its kind, its
  payload and whether its type is the plain one of the constructor (\<^verbatim>\<open>string\<close>,
  \<^verbatim>\<open>[]uint8\<close>, \<^verbatim>\<open>int64\<close>, ...) or another type of the same kind, with its name
  (a defined type such as \<^verbatim>\<open>hexutil.Bytes\<close>).
\<close>

datatype tyname = Plain | Named string

text \<open>
  The dynamic value that \<^verbatim>\<open>Interface()\<close> returns, as far as the type assertions and
  the type switch of the two files tell it apart: \<^verbatim>\<open>nil\<close>, an \<^verbatim>\<open>int\<close>, an \<^verbatim>\<open>int64\<close>,
  a \<^verbatim>\<open>string\<close>, a \<^verbatim>\<open>*big.Int\<close> (\<open>None\<close> is the nil pointer), a \<^verbatim>\<open>[]uint8\<close>, a
  \<^verbatim>\<open>common.Address\<close>, or a value of any other type.
\<close>

datatype boxed =
    BNil
  | BInt "64 word"
  | BInt64 "64 word"
  | BString string
  | BBigInt "int option"
  | BBytes "byte list"
  | BAddress "byte list"
  | BOther

datatype kind =
    KInvalid | KBool
  | KInt | KInt8 | KInt16 | KInt32 | KInt64
  | KUint | KUint8 | KUint16 | KUint32 | KUint64 | KUintptr
  | KArray | KChan | KInterface | KMap | KPtr | KSlice | KString
  | KOther

text \<open>
  The values:
  \<^item> \<open>VInvalid\<close>: the zero \<^verbatim>\<open>reflect.Value\<close>, which \<^verbatim>\<open>reflect.ValueOf(nil)\<close> returns;
  \<^item> booleans and integers of every kind, \<^verbatim>\<open>uintptr\<close> among them, of a predeclared or
    a defined type; \<^verbatim>\<open>uint\<close>, \<^verbatim>\<open>int\<close> and \<^verbatim>\<open>uintptr\<close> are 64 bits wide;
  \<^item> \<open>VBigInt\<close> and \<open>VNilBigInt\<close>: a \<^verbatim>\<open>*big.Int\<close>; \<open>VPtr\<close>: a pointer of another type
    (not a pointer to an array), by the name of its type;
  \<^item> \<open>VString\<close>: a value of kind String; \<open>VBytes\<close>: a slice whose element kind is
    Uint8; \<open>VByteArray\<close>: an array whose element type is \<^verbatim>\<open>uint8\<close>, other than
    \<^verbatim>\<open>common.Address\<close>, which is \<open>VAddress\<close>;
  \<^item> \<open>VArray\<close>: an array of another element type; \<open>VSlice\<close>: a slice of another element
    kind; \<open>VMap\<close>, \<open>VChan\<close>: each by the name of its type and its length;
  \<^item> \<open>VIface\<close>: a value of kind Interface (an element of a \<^verbatim>\<open>[]any\<close>, say), by the
    name of its type and its dynamic value;
  \<^item> \<open>VOther\<close>: a value of kind Float32, Float64, Complex64, Complex128, Func, Struct or
    UnsafePointer, by the name of its type;
  \<^item> \<open>VUnexported v\<close>: the value \<open>v\<close> read from an unexported struct field.
\<close>

datatype gvalue =
    VInvalid
  | VBool tyname bool
  | VInt tyname "64 word" | VInt8 tyname "8 word" | VInt16 tyname "16 word"
  | VInt32 tyname "32 word" | VInt64 tyname "64 word"
  | VUint tyname "64 word" | VUint8 tyname "8 word" | VUint16 tyname "16 word"
  | VUint32 tyname "32 word" | VUint64 tyname "64 word"
  | VUintptr tyname "64 word"
  | VBigInt int
  | VNilBigInt
  | VPtr string
  | VString tyname string
  | VBytes tyname "byte list"
  | VByteArray tyname "byte list"
  | VAddress "byte list"
  | VArray string nat
  | VSlice string nat
  | VMap string nat
  | VChan string nat
  | VIface string boxed
  | VOther string
  | VUnexported gvalue

text \<open>\<^verbatim>\<open>[]byte(s)\<close> and \<^verbatim>\<open>len(x)\<close> as a Go \<^verbatim>\<open>int\<close>.\<close>

definition bytes_of :: "string \<Rightarrow> byte list" where
  "bytes_of s = map of_char s"

definition len :: "'a list \<Rightarrow> 64 word" where
  "len xs = of_nat (length xs)"

section \<open>The methods of \<^verbatim>\<open>reflect.Value\<close> that the packer calls\<close>

text \<open>\<^verbatim>\<open>Kind()\<close> never panics; the zero Value has the kind Invalid.\<close>

fun Kind :: "gvalue \<Rightarrow> kind" where
  "Kind VInvalid = KInvalid"
| "Kind (VBool t b) = KBool"
| "Kind (VInt t w) = KInt"
| "Kind (VInt8 t w) = KInt8"
| "Kind (VInt16 t w) = KInt16"
| "Kind (VInt32 t w) = KInt32"
| "Kind (VInt64 t w) = KInt64"
| "Kind (VUint t w) = KUint"
| "Kind (VUint8 t w) = KUint8"
| "Kind (VUint16 t w) = KUint16"
| "Kind (VUint32 t w) = KUint32"
| "Kind (VUint64 t w) = KUint64"
| "Kind (VUintptr t w) = KUintptr"
| "Kind (VBigInt n) = KPtr"
| "Kind VNilBigInt = KPtr"
| "Kind (VPtr nm) = KPtr"
| "Kind (VString t s) = KString"
| "Kind (VBytes t b) = KSlice"
| "Kind (VByteArray t b) = KArray"
| "Kind (VAddress b) = KArray"
| "Kind (VArray nm n) = KArray"
| "Kind (VSlice nm n) = KSlice"
| "Kind (VMap nm n) = KMap"
| "Kind (VChan nm n) = KChan"
| "Kind (VIface nm x) = KInterface"
| "Kind (VOther nm) = KOther"
| "Kind (VUnexported v) = Kind v"

text \<open>
  \<^verbatim>\<open>Uint()\<close> returns a \<^verbatim>\<open>uint64\<close> and \<^verbatim>\<open>Int()\<close> an \<^verbatim>\<open>int64\<close>; each panics
  (\<open>None\<close>) on a value of another kind.
\<close>

fun Value_Uint :: "gvalue \<Rightarrow> 64 word option" where
  "Value_Uint (VUint t w) = Some w"
| "Value_Uint (VUint8 t w) = Some (ucast w)"
| "Value_Uint (VUint16 t w) = Some (ucast w)"
| "Value_Uint (VUint32 t w) = Some (ucast w)"
| "Value_Uint (VUint64 t w) = Some w"
| "Value_Uint (VUintptr t w) = Some w"
| "Value_Uint (VUnexported v) = Value_Uint v"
| "Value_Uint _ = None"

fun Value_Int :: "gvalue \<Rightarrow> 64 word option" where
  "Value_Int (VInt t w) = Some w"
| "Value_Int (VInt8 t w) = Some (scast w)"
| "Value_Int (VInt16 t w) = Some (scast w)"
| "Value_Int (VInt32 t w) = Some (scast w)"
| "Value_Int (VInt64 t w) = Some w"
| "Value_Int (VUnexported v) = Value_Int v"
| "Value_Int _ = None"

text \<open>
  \<^verbatim>\<open>Interface()\<close> panics (\<open>None\<close>) on the zero Value and on a value read from an
  unexported field. On a value of kind Interface it returns the dynamic value.
\<close>

fun Interface :: "gvalue \<Rightarrow> boxed option" where
  "Interface VInvalid = None"
| "Interface (VUnexported v) = None"
| "Interface (VInt Plain w) = Some (BInt w)"
| "Interface (VInt64 Plain w) = Some (BInt64 w)"
| "Interface (VString Plain s) = Some (BString s)"
| "Interface (VBigInt n) = Some (BBigInt (Some n))"
| "Interface VNilBigInt = Some (BBigInt None)"
| "Interface (VBytes Plain b) = Some (BBytes b)"
| "Interface (VAddress b) = Some (BAddress b)"
| "Interface (VIface nm x) = Some x"
| "Interface _ = Some BOther"

text \<open>The type assertions \<^verbatim>\<open>.(string)\<close>, \<^verbatim>\<open>.([]uint8)\<close>, \<^verbatim>\<open>.(common.Address)\<close>, \<^verbatim>\<open>.(*big.Int)\<close>.\<close>

fun as_string :: "boxed \<Rightarrow> string option" where
  "as_string (BString s) = Some s"
| "as_string _ = None"

fun as_bytes :: "boxed \<Rightarrow> byte list option" where
  "as_bytes (BBytes b) = Some b"
| "as_bytes _ = None"

fun as_Address :: "boxed \<Rightarrow> byte list option" where
  "as_Address (BAddress b) = Some b"
| "as_Address _ = None"

fun as_BigInt :: "boxed \<Rightarrow> int option option" where
  "as_BigInt (BBigInt n) = Some n"
| "as_BigInt _ = None"

text \<open>
  \<^verbatim>\<open>Type() == reflect.TypeOf("")\<close> and \<^verbatim>\<open>Type() == reflect.TypeOf([]byte{})\<close>;
  \<^verbatim>\<open>Type()\<close> panics (\<open>None\<close>) on the zero Value.
\<close>

fun Type_is_string :: "gvalue \<Rightarrow> bool option" where
  "Type_is_string VInvalid = None"
| "Type_is_string (VString Plain s) = Some True"
| "Type_is_string (VUnexported v) = Type_is_string v"
| "Type_is_string _ = Some False"

fun Type_is_bytes :: "gvalue \<Rightarrow> bool option" where
  "Type_is_bytes VInvalid = None"
| "Type_is_bytes (VBytes Plain b) = Some True"
| "Type_is_bytes (VUnexported v) = Type_is_bytes v"
| "Type_is_bytes _ = Some False"

text \<open>
  \<^verbatim>\<open>Bytes()\<close> panics (\<open>None\<close>) unless the value is a slice of element kind Uint8;
  \<^verbatim>\<open>Bool()\<close> panics unless the kind is Bool.
\<close>

fun Value_Bytes :: "gvalue \<Rightarrow> byte list option" where
  "Value_Bytes (VBytes t b) = Some b"
| "Value_Bytes (VUnexported v) = Value_Bytes v"
| "Value_Bytes _ = None"

fun Value_Bool :: "gvalue \<Rightarrow> bool option" where
  "Value_Bool (VBool t b) = Some b"
| "Value_Bool (VUnexported v) = Value_Bool v"
| "Value_Bool _ = None"

text \<open>
  \<^verbatim>\<open>Len()\<close> panics (\<open>None\<close>) unless the kind is Array, Chan, Map, Slice or String.
\<close>

fun Value_Len :: "gvalue \<Rightarrow> 64 word option" where
  "Value_Len (VString t s) = Some (len s)"
| "Value_Len (VBytes t b) = Some (len b)"
| "Value_Len (VByteArray t b) = Some (len b)"
| "Value_Len (VAddress b) = Some (len b)"
| "Value_Len (VArray nm n) = Some (of_nat n)"
| "Value_Len (VSlice nm n) = Some (of_nat n)"
| "Value_Len (VMap nm n) = Some (of_nat n)"
| "Value_Len (VChan nm n) = Some (of_nat n)"
| "Value_Len (VUnexported v) = Value_Len v"
| "Value_Len _ = None"

text \<open>Decimal rendering of a natural number, as in the name of an array type.\<close>

fun decimal :: "nat \<Rightarrow> string" where
  "decimal n = (if n < 10 then [char_of (48 + n)] else decimal (n div 10) @ [char_of (48 + n mod 10)])"

declare decimal.simps [simp del]

text \<open>The name of the value's type, as \<^verbatim>\<open>Type().String()\<close> gives it.\<close>

fun type_name :: "string \<Rightarrow> tyname \<Rightarrow> string" where
  "type_name plain Plain = plain"
| "type_name plain (Named nm) = nm"

fun Type_String :: "gvalue \<Rightarrow> string" where
  "Type_String VInvalid = []"
| "Type_String (VBool t b) = type_name ''bool'' t"
| "Type_String (VInt t w) = type_name ''int'' t"
| "Type_String (VInt8 t w) = type_name ''int8'' t"
| "Type_String (VInt16 t w) = type_name ''int16'' t"
| "Type_String (VInt32 t w) = type_name ''int32'' t"
| "Type_String (VInt64 t w) = type_name ''int64'' t"
| "Type_String (VUint t w) = type_name ''uint'' t"
| "Type_String (VUint8 t w) = type_name ''uint8'' t"
| "Type_String (VUint16 t w) = type_name ''uint16'' t"
| "Type_String (VUint32 t w) = type_name ''uint32'' t"
| "Type_String (VUint64 t w) = type_name ''uint64'' t"
| "Type_String (VUintptr t w) = type_name ''uintptr'' t"
| "Type_String (VBigInt n) = ''*big.Int''"
| "Type_String VNilBigInt = ''*big.Int''"
| "Type_String (VPtr nm) = nm"
| "Type_String (VString t s) = type_name ''string'' t"
| "Type_String (VBytes t b) = type_name ''[]uint8'' t"
| "Type_String (VByteArray t b) = type_name (''['' @ decimal (length b) @ '']uint8'') t"
| "Type_String (VAddress b) = ''common.Address''"
| "Type_String (VArray nm n) = nm"
| "Type_String (VSlice nm n) = nm"
| "Type_String (VMap nm n) = nm"
| "Type_String (VChan nm n) = nm"
| "Type_String (VIface nm x) = nm"
| "Type_String (VOther nm) = nm"
| "Type_String (VUnexported v) = Type_String v"

text \<open>
  \<^verbatim>\<open>String()\<close> never panics: it is the string itself for a value of kind String,
  \<^verbatim>\<open><invalid Value>\<close> for the zero Value and \<^verbatim>\<open><T Value>\<close> with the type's name
  otherwise.
\<close>

fun Value_String :: "gvalue \<Rightarrow> string" where
  "Value_String (VString t s) = s"
| "Value_String VInvalid = ''<invalid Value>''"
| "Value_String (VUnexported v) = Value_String v"
| "Value_String v = ''<'' @ Type_String v @ '' Value>''"

section \<open>Go's integer arithmetic on \<^verbatim>\<open>int\<close>\<close>

text \<open>
  Addition and multiplication of 64-bit words wrap around. The quotient \<^verbatim>\<open>a / b\<close>
  truncates towards zero.
\<close>

definition go_div :: "64 word \<Rightarrow> 64 word \<Rightarrow> 64 word" where
  "go_div a b = word_of_int (sint a sdiv sint b)"

section \<open>The standard library's \<^verbatim>\<open>(*big.Int).SetString(s, 10)\<close>\<close>

text \<open>
  An optional sign, \<^verbatim>\<open>+\<close> or \<^verbatim>\<open>-\<close>, then one or more decimal digits, and nothing else:
  the whole string must be consumed. \<open>None\<close> is the result \<^verbatim>\<open>ok == false\<close>.
\<close>

definition digit_val :: "char \<Rightarrow> nat option" where
  "digit_val c = (let n = (of_char c :: nat) in if 48 \<le> n \<and> n \<le> 57 then Some (n - 48) else None)"

fun scan_digits :: "nat \<Rightarrow> string \<Rightarrow> nat option" where
  "scan_digits acc [] = Some acc"
| "scan_digits acc (c # cs) =
     (case digit_val c of None \<Rightarrow> None | Some d \<Rightarrow> scan_digits (10 * acc + d) cs)"

definition scan_number :: "string \<Rightarrow> nat option" where
  "scan_number s = (if s = [] then None else scan_digits 0 s)"

fun SetString :: "string \<Rightarrow> int option" where
  "SetString [] = None"
| "SetString (c # cs) =
     (if c = CHR ''-'' then map_option (\<lambda>n. - int n) (scan_number cs)
      else if c = CHR ''+'' then map_option int (scan_number cs)
      else map_option int (scan_number (c # cs)))"

section \<open>Helpers of the repository that the two files call\<close>

text \<open>
  Modelled from the spec: \<^verbatim>\<open>common.RightPadBytes\<close> and \<^verbatim>\<open>common.LeftPadBytes\<close> are
  not among the source files. The payload is padded with zero bytes up to the
  target length \<open>l\<close> (a Go \<^verbatim>\<open>int\<close>, here its value); a payload that already has
  that length or more is returned as it is, never truncated.
\<close>

definition RightPadBytes :: "byte list \<Rightarrow> int \<Rightarrow> byte list" where
  "RightPadBytes bs l =
     (if l \<le> int (length bs) then bs
      else bs @ replicate (nat l - length bs) 0)"

definition LeftPadBytes :: "byte list \<Rightarrow> int \<Rightarrow> byte list" where
  "LeftPadBytes bs l =
     (if l \<le> int (length bs) then bs
      else replicate (nat l - length bs) 0 @ bs)"

text \<open>
  Modelled from the spec: \<^verbatim>\<open>math.U256Bytes\<close> and \<^verbatim>\<open>math.PaddedBigBytes\<close> are not among
  the source files. \<open>U256\<close> reduces the number modulo \<open>2^256\<close>; \<open>PaddedBigBytes\<close> is
  the big-endian byte string of a number, padded on the left with zero bytes to at
  least \<open>n\<close> bytes. \<open>big_Bytes\<close> is the minimal big-endian byte string. \<open>Big0\<close> and
  \<open>Big1\<close> are the constants \<^verbatim>\<open>common.Big0\<close> and \<^verbatim>\<open>common.Big1\<close>, the numbers 0 and 1.
\<close>

fun big_Bytes :: "nat \<Rightarrow> byte list" where
  "big_Bytes x = (if x = 0 then [] else big_Bytes (x div 256) @ [of_nat (x mod 256)])"

declare big_Bytes.simps [simp del]

definition PaddedBigBytes :: "int \<Rightarrow> int \<Rightarrow> byte list" where
  "PaddedBigBytes bigint n = LeftPadBytes (big_Bytes (nat \<bar>bigint\<bar>)) n"

definition Big0 :: int where
  "Big0 = 0"

definition Big1 :: int where
  "Big1 = 1"

definition U256 :: "int \<Rightarrow> int" where
  "U256 x = x mod 2 ^ 256"

definition U256Bytes :: "int \<Rightarrow> byte list" where
  "U256Bytes n = PaddedBigBytes (U256 n) 32"

text \<open>
  Modelled from the spec: \<^verbatim>\<open>common.HexToAddress\<close> is not among the source files. It
  parses the hexadecimal digits of the string, after an optional \<^verbatim>\<open>0x\<close> prefix, into
  bytes and keeps them as a 20-byte address, right-aligned: longer input keeps its last
  20 bytes, shorter input is padded on the left with zero bytes.
\<close>

definition hex_digit :: "char \<Rightarrow> nat option" where
  "hex_digit c =
     (let n = (of_char c :: nat) in
      if 48 \<le> n \<and> n \<le> 57 then Some (n - 48)
      else if 97 \<le> n \<and> n \<le> 102 then Some (n - 87)
      else if 65 \<le> n \<and> n \<le> 70 then Some (n - 55)
      else None)"

fun Hex2Bytes :: "string \<Rightarrow> byte list" where
  "Hex2Bytes (a # b # cs) =
     (case hex_digit a of None \<Rightarrow> []
      | Some x \<Rightarrow> (case hex_digit b of None \<Rightarrow> []
          | Some y \<Rightarrow> of_nat (16 * x + y) # Hex2Bytes cs))"
| "Hex2Bytes _ = []"

definition FromHex :: "string \<Rightarrow> byte list" where
  "FromHex s =
     (let s1 = (if take 2 s = ''0x'' \<or> take 2 s = ''0X'' then drop 2 s else s);
          s2 = (if odd (length s1) then CHR ''0'' # s1 else s1)
      in Hex2Bytes s2)"

definition BytesToAddress :: "byte list \<Rightarrow> byte list" where
  "BytesToAddress b =
     (let b1 = (if length b > 20 then drop (length b - 20) b else b)
      in replicate (20 - length b1) 0 @ b1)"

definition HexToAddress :: "string \<Rightarrow> byte list" where
  "HexToAddress s = BytesToAddress (FromHex s)"

text \<open>
  Modelled from the spec: \<^verbatim>\<open>mustArrayToByteSlice\<close> is not among the source files. It
  converts a fixed-size byte array into a byte slice (a \<^verbatim>\<open>[]byte\<close>) of identical
  contents and order. It is called on values of kind Array only. As its name says it
  panics (\<open>None\<close>) where it cannot copy: on an array of another element type, and on an
  array read from an unexported field.
\<close>

fun mustArrayToByteSlice :: "gvalue \<Rightarrow> gvalue option" where
  "mustArrayToByteSlice (VByteArray t b) = Some (VBytes Plain b)"
| "mustArrayToByteSlice (VAddress b) = Some (VBytes Plain b)"
| "mustArrayToByteSlice v = None"

text \<open>
  \<^verbatim>\<open>common.Address.Hex\<close>, the canonical hexadecimal rendering of an address, is not
  among the source files and the specification does not define it. The packer takes
  it as the parameter \<open>hex\<close>. One rendering, \<^verbatim>\<open>0x\<close> and lower-case digits, is
  \<open>hexLower\<close>.
\<close>

definition hex_char :: "nat \<Rightarrow> char" where
  "hex_char n = (if n < 10 then char_of (48 + n) else char_of (87 + n))"

definition hexLower :: "byte list \<Rightarrow> string" where
  "hexLower b = ''0x'' @ concat (map (\<lambda>x. [hex_char (unat x div 16), hex_char (unat x mod 16)]) b)"

definition zeroAddressString :: string where
  "zeroAddressString = ''0x0000000000000000000000000000000000000000''"

section \<open>The packer of \<^verbatim>\<open>accounts/abi/pack.go\<close>\<close>

text \<open>
  \<open>toBigInt\<close> switches on the dynamic type: \<^verbatim>\<open>int\<close>, \<^verbatim>\<open>int64\<close>, \<^verbatim>\<open>string\<close>; \<open>None\<close> is
  the error "Cannot convert to *big.Int".
\<close>

fun toBigInt :: "boxed \<Rightarrow> int option" where
  "toBigInt (BInt v) = Some (sint v)"
| "toBigInt (BInt64 v) = Some (sint v)"
| "toBigInt (BString v) = SetString v"
| "toBigInt _ = None"

text \<open>
  \<open>packNum\<close> switches on the kind of the value. In the cases \<^verbatim>\<open>reflect.Ptr\<close> and
  \<^verbatim>\<open>reflect.String\<close> the type assertions \<^verbatim>\<open>.(*big.Int)\<close> and \<^verbatim>\<open>.(string)\<close> have no
  \<^verbatim>\<open>ok\<close> and panic on a value of another type; \<^verbatim>\<open>Set\<close> and \<^verbatim>\<open>U256Bytes\<close> panic on the
  nil pointer. The last branch is the \<^verbatim>\<open>default\<close> case.
\<close>

definition packNum :: "gvalue \<Rightarrow> outcome" where
  "packNum value =
     (let kind = Kind value in
      if kind \<in> {KUint, KUint8, KUint16, KUint32, KUint64} then
        (case Value_Uint value of
           None \<Rightarrow> Panic
         | Some u \<Rightarrow> Return (U256Bytes (uint u)) None)
      else if kind \<in> {KInt, KInt8, KInt16, KInt32, KInt64} then
        (case Value_Int value of
           None \<Rightarrow> Panic
         | Some i \<Rightarrow> Return (U256Bytes (sint i)) None)
      else if kind = KPtr then
        (case Interface value of
           None \<Rightarrow> Panic
         | Some x \<Rightarrow>
             (case as_BigInt x of
                None \<Rightarrow> Panic
              | Some None \<Rightarrow> Panic
              | Some (Some n) \<Rightarrow> Return (U256Bytes n) None))
      else if kind = KString then
        (case Interface value of
           None \<Rightarrow> Panic
         | Some x \<Rightarrow>
             (case as_string x of
                None \<Rightarrow> Panic
              | Some s \<Rightarrow>
                  (case SetString s of
                     None \<Rightarrow> Return [] (Some InvalidNumericString)
                   | Some bn \<Rightarrow> Return (U256Bytes bn) None)))
      else
        (case Interface value of
           None \<Rightarrow> Panic
         | Some x \<Rightarrow>
             (case as_BigInt x of
                Some None \<Rightarrow> Panic
              | Some (Some v) \<Rightarrow> Return (U256Bytes v) None
              | None \<Rightarrow>
                  (case toBigInt x of
                     None \<Rightarrow> Return [] (Some UnsupportedNumericType)
                   | Some bn \<Rightarrow> Return (U256Bytes bn) None))))"

text \<open>
  \<open>packBytesSlice\<close>: the length word, then the bytes padded on the right to
  \<^verbatim>\<open>(l+31)/32*32\<close>, computed in 64-bit \<^verbatim>\<open>int\<close> arithmetic.
\<close>

definition packBytesSlice :: "byte list \<Rightarrow> 64 word \<Rightarrow> outcome" where
  "packBytesSlice bytes l =
     (case packNum (VInt Plain l) of
        Panic \<Rightarrow> Panic
      | Return lw (Some err) \<Rightarrow> Return [] (Some err)
      | Return lw None \<Rightarrow>
          Return (lw @ RightPadBytes bytes (sint (go_div (l + 31) 32 * 32))) None)"

text \<open>
  The Address case up to the checks on a string: \<open>Inl\<close> is the early return or the
  panic, \<open>Inr\<close> the value that \<^verbatim>\<open>reflectValue\<close> holds afterwards.
\<close>

definition addressOfString :: "(byte list \<Rightarrow> string) \<Rightarrow> gvalue \<Rightarrow> outcome + gvalue" where
  "addressOfString hex reflectValue =
     (case Interface reflectValue of
        None \<Rightarrow> Inl Panic
      | Some x \<Rightarrow>
          (case as_string x of
             None \<Rightarrow> Inr reflectValue
           | Some addr \<Rightarrow>
               if addr \<noteq> zeroAddressString \<and> hex (HexToAddress addr) \<noteq> addr
               then Inl (Return [] (Some InvalidAddress))
               else Inr (VAddress (HexToAddress addr))))"

text \<open>
  \<^verbatim>\<open>if reflectValue.Kind() == reflect.Array { reflectValue = mustArrayToByteSlice(reflectValue) }\<close>
\<close>

definition arrayToSlice :: "gvalue \<Rightarrow> gvalue option" where
  "arrayToSlice reflectValue =
     (if Kind reflectValue = KArray then mustArrayToByteSlice reflectValue
      else Some reflectValue)"

fun packElement :: "(byte list \<Rightarrow> string) \<Rightarrow> abi_ty \<Rightarrow> gvalue \<Rightarrow> outcome" where
  "packElement hex IntTy reflectValue = packNum reflectValue"
| "packElement hex UintTy reflectValue = packNum reflectValue"
| "packElement hex StringTy reflectValue =
     (case Interface reflectValue of
        None \<Rightarrow> Panic
      | Some x \<Rightarrow>
          (case as_string x of
             None \<Rightarrow> Return [] (Some TypeMismatch)
           | Some v \<Rightarrow> packBytesSlice (bytes_of v) (len v)))"
| "packElement hex AddressTy reflectValue =
     (case addressOfString hex reflectValue of
        Inl out \<Rightarrow> out
      | Inr rv \<Rightarrow>
          (case arrayToSlice rv of
             None \<Rightarrow> Panic
           | Some rv' \<Rightarrow>
               (case Interface rv' of
                  None \<Rightarrow> Panic
                | Some x \<Rightarrow>
                    (case as_bytes x of
                       Some v \<Rightarrow> Return (LeftPadBytes v 32) None
                     | None \<Rightarrow>
                         (case as_Address x of
                            None \<Rightarrow> Return [] (Some InvalidAddress)
                          | Some b \<Rightarrow> Return (LeftPadBytes b 32) None)))))"
| "packElement hex BoolTy reflectValue =
     (case Value_Bool reflectValue of
        None \<Rightarrow> Panic
      | Some b \<Rightarrow>
          if b then Return (PaddedBigBytes Big1 32) None
          else Return (PaddedBigBytes Big0 32) None)"
| "packElement hex BytesTy reflectValue =
     (case arrayToSlice reflectValue of
        None \<Rightarrow> Panic
      | Some rv \<Rightarrow>
          (case Type_is_bytes rv of
             None \<Rightarrow> Panic
           | Some False \<Rightarrow> Return [] (Some TypeMismatch)
           | Some True \<Rightarrow>
               (case Value_Bytes rv of
                  None \<Rightarrow> Panic
                | Some b \<Rightarrow>
                    (case Value_Len rv of
                       None \<Rightarrow> Panic
                     | Some l \<Rightarrow> packBytesSlice b l))))"
| "packElement hex FixedBytesTy reflectValue =
     (case arrayToSlice reflectValue of
        None \<Rightarrow> Panic
      | Some rv \<Rightarrow>
          (case Value_Bytes rv of
             None \<Rightarrow> Panic
           | Some b \<Rightarrow> Return (RightPadBytes b 32) None))"
| "packElement hex FunctionTy reflectValue =
     (case arrayToSlice reflectValue of
        None \<Rightarrow> Panic
      | Some rv \<Rightarrow>
          (case Value_Bytes rv of
             None \<Rightarrow> Panic
           | Some b \<Rightarrow> Return (RightPadBytes b 32) None))"
| "packElement hex _ reflectValue = Return [] (Some UnsupportedElementType)"

section \<open>The packer of the earlier revision, \<^verbatim>\<open>src/unnamed/part_000\<close>\<close>

text \<open>
  The same three functions; the names carry the suffix \<open>_p0\<close>. The \<^verbatim>\<open>default\<close> case of
  \<open>packNum_p0\<close> returns its error at once. In the String case of \<open>packElement_p0\<close> the
  arguments \<^verbatim>\<open>reflectValue.String()\<close> and \<^verbatim>\<open>reflectValue.Len()\<close> are taken from any
  value. The Address case tests \<^verbatim>\<open>reflectValue.Type() == reflect.TypeOf("")\<close>, reads the
  string with \<^verbatim>\<open>String()\<close> and the bytes with \<^verbatim>\<open>Bytes()\<close>.
\<close>

definition packNum_p0 :: "gvalue \<Rightarrow> outcome" where
  "packNum_p0 value =
     (let kind = Kind value in
      if kind \<in> {KUint, KUint8, KUint16, KUint32, KUint64} then
        (case Value_Uint value of
           None \<Rightarrow> Panic
         | Some u \<Rightarrow> Return (U256Bytes (uint u)) None)
      else if kind \<in> {KInt, KInt8, KInt16, KInt32, KInt64} then
        (case Value_Int value of
           None \<Rightarrow> Panic
         | Some i \<Rightarrow> Return (U256Bytes (sint i)) None)
      else if kind = KPtr then
        (case Interface value of
           None \<Rightarrow> Panic
         | Some x \<Rightarrow>
             (case as_BigInt x of
                None \<Rightarrow> Panic
              | Some None \<Rightarrow> Panic
              | Some (Some n) \<Rightarrow> Return (U256Bytes n) None))
      else if kind = KString then
        (case Interface value of
           None \<Rightarrow> Panic
         | Some x \<Rightarrow>
             (case as_string x of
                None \<Rightarrow> Panic
              | Some s \<Rightarrow>
                  (case SetString s of
                     None \<Rightarrow> Return [] (Some InvalidNumericString)
                   | Some bn \<Rightarrow> Return (U256Bytes bn) None)))
      else Return [] (Some UnsupportedNumericType))"

definition packBytesSlice_p0 :: "byte list \<Rightarrow> 64 word \<Rightarrow> outcome" where
  "packBytesSlice_p0 bytes l =
     (case packNum_p0 (VInt Plain l) of
        Panic \<Rightarrow> Panic
      | Return lw (Some err) \<Rightarrow> Return [] (Some err)
      | Return lw None \<Rightarrow>
          Return (lw @ RightPadBytes bytes (sint (go_div (l + 31) 32 * 32))) None)"

definition addressOfString_p0 :: "(byte list \<Rightarrow> string) \<Rightarrow> gvalue \<Rightarrow> outcome + gvalue" where
  "addressOfString_p0 hex reflectValue =
     (case Type_is_string reflectValue of
        None \<Rightarrow> Inl Panic
      | Some False \<Rightarrow> Inr reflectValue
      | Some True \<Rightarrow>
          (let addr = Value_String reflectValue in
           if addr \<noteq> zeroAddressString \<and> hex (HexToAddress addr) \<noteq> addr
           then Inl (Return [] (Some InvalidAddress))
           else Inr (VAddress (HexToAddress addr))))"

fun packElement_p0 :: "(byte list \<Rightarrow> string) \<Rightarrow> abi_ty \<Rightarrow> gvalue \<Rightarrow> outcome" where
  "packElement_p0 hex IntTy reflectValue = packNum_p0 reflectValue"
| "packElement_p0 hex UintTy reflectValue = packNum_p0 reflectValue"
| "packElement_p0 hex StringTy reflectValue =
     (case Value_Len reflectValue of
        None \<Rightarrow> Panic
      | Some l \<Rightarrow> packBytesSlice_p0 (bytes_of (Value_String reflectValue)) l)"
| "packElement_p0 hex AddressTy reflectValue =
     (case addressOfString_p0 hex reflectValue of
        Inl out \<Rightarrow> out
      | Inr rv \<Rightarrow>
          (case arrayToSlice rv of
             None \<Rightarrow> Panic
           | Some rv' \<Rightarrow>
               (case Value_Bytes rv' of
                  None \<Rightarrow> Panic
                | Some b \<Rightarrow> Return (LeftPadBytes b 32) None)))"
| "packElement_p0 hex BoolTy reflectValue =
     (case Value_Bool reflectValue of
        None \<Rightarrow> Panic
      | Some b \<Rightarrow>
          if b then Return (PaddedBigBytes Big1 32) None
          else Return (PaddedBigBytes Big0 32) None)"
| "packElement_p0 hex BytesTy reflectValue =
     (case arrayToSlice reflectValue of
        None \<Rightarrow> Panic
      | Some rv \<Rightarrow>
          (case Type_is_bytes rv of
             None \<Rightarrow> Panic
           | Some False \<Rightarrow> Return [] (Some TypeMismatch)
           | Some True \<Rightarrow>
               (case Value_Bytes rv of
                  None \<Rightarrow> Panic
                | Some b \<Rightarrow>
                    (case Value_Len rv of
                       None \<Rightarrow> Panic
                     | Some l \<Rightarrow> packBytesSlice_p0 b l))))"
| "packElement_p0 hex FixedBytesTy reflectValue =
     (case arrayToSlice reflectValue of
        None \<Rightarrow> Panic
      | Some rv \<Rightarrow>
          (case Value_Bytes rv of
             None \<Rightarrow> Panic
           | Some b \<Rightarrow> Return (RightPadBytes b 32) None))"
| "packElement_p0 hex FunctionTy reflectValue =
     (case arrayToSlice reflectValue of
        None \<Rightarrow> Panic
      | Some rv \<Rightarrow>
          (case Value_Bytes rv of
             None \<Rightarrow> Panic
           | Some b \<Rightarrow> Return (RightPadBytes b 32) None))"
| "packElement_p0 hex _ reflectValue = Return [] (Some UnsupportedElementType)"

section \<open>The vocabulary of the specification\<close>

text \<open>
  The definitions of this section follow the words of the specification, not the code;
  the theorems compare the packer with them.
\<close>

text \<open>The number that a big-endian byte string denotes.\<close>

definition be_value :: "byte list \<Rightarrow> nat" where
  "be_value bs = foldl (\<lambda>a b. 256 * a + unat b) 0 bs"

text \<open>\<open>ceil(l/32)*32\<close>, and a payload padded on the right with zero bytes to \<open>k\<close> bytes.\<close>

definition padded_length :: "int \<Rightarrow> nat" where
  "padded_length l = nat \<lceil>real_of_int l / 32\<rceil> * 32"

definition right_pad :: "byte list \<Rightarrow> nat \<Rightarrow> byte list" where
  "right_pad p k = p @ replicate (k - length p) 0"

definition left_pad :: "byte list \<Rightarrow> nat \<Rightarrow> byte list" where
  "left_pad p k = replicate (k - length p) 0 @ p"

text \<open>
  A base-10 integer literal: one or more decimal digits, with an optional leading
  \<^verbatim>\<open>-\<close> (\<open>decimal_literal\<close>), or with an optional leading \<^verbatim>\<open>-\<close> or \<^verbatim>\<open>+\<close>
  (\<open>signed_decimal\<close>). \<open>None\<close>: the string is not such a literal.
\<close>

definition is_decimal_digit :: "char \<Rightarrow> bool" where
  "is_decimal_digit c = (CHR ''0'' \<le> c \<and> c \<le> CHR ''9'')"

definition decimal_value :: "string \<Rightarrow> nat" where
  "decimal_value s = foldl (\<lambda>a c. 10 * a + (of_char c - 48)) 0 s"

definition unsigned_decimal :: "string \<Rightarrow> nat option" where
  "unsigned_decimal s =
     (if s \<noteq> [] \<and> list_all is_decimal_digit s then Some (decimal_value s) else None)"

definition decimal_literal :: "string \<Rightarrow> int option" where
  "decimal_literal s =
     (case s of
        [] \<Rightarrow> None
      | c # cs \<Rightarrow>
          if c = CHR ''-'' then map_option (\<lambda>n. - int n) (unsigned_decimal cs)
          else map_option int (unsigned_decimal s))"

definition signed_decimal :: "string \<Rightarrow> int option" where
  "signed_decimal s =
     (case s of
        [] \<Rightarrow> None
      | c # cs \<Rightarrow>
          if c = CHR ''-'' then map_option (\<lambda>n. - int n) (unsigned_decimal cs)
          else if c = CHR ''+'' then map_option int (unsigned_decimal cs)
          else map_option int (unsigned_decimal s))"

text \<open>
  The number that a numeric input denotes: an integer of an unsigned kind of 8 to 64
  bits or of kind \<^verbatim>\<open>uint\<close> taken as unsigned, one of a signed kind as signed, of a
  predeclared or a defined type; a non-nil \<^verbatim>\<open>*big.Int\<close> as it is; a \<^verbatim>\<open>string\<close> that is a
  decimal literal, parsed. \<open>None\<close> for every other value: a \<^verbatim>\<open>uintptr\<close>, a string of a
  defined type, a value read from an unexported field among them.
\<close>

fun numeric_value :: "gvalue \<Rightarrow> int option" where
  "numeric_value (VUint t w) = Some (uint w)"
| "numeric_value (VUint8 t w) = Some (uint w)"
| "numeric_value (VUint16 t w) = Some (uint w)"
| "numeric_value (VUint32 t w) = Some (uint w)"
| "numeric_value (VUint64 t w) = Some (uint w)"
| "numeric_value (VInt t w) = Some (sint w)"
| "numeric_value (VInt8 t w) = Some (sint w)"
| "numeric_value (VInt16 t w) = Some (sint w)"
| "numeric_value (VInt32 t w) = Some (sint w)"
| "numeric_value (VInt64 t w) = Some (sint w)"
| "numeric_value (VBigInt n) = Some n"
| "numeric_value (VString Plain s) = decimal_literal s"
| "numeric_value _ = None"

text \<open>
  A value that \<^verbatim>\<open>Interface()\<close> can read: not the zero Value and not read from an
  unexported field. The string of a value whose dynamic type is \<^verbatim>\<open>string\<close>, held as it
  is or in an interface.
\<close>

fun readable :: "gvalue \<Rightarrow> bool" where
  "readable VInvalid = False"
| "readable (VUnexported v) = False"
| "readable _ = True"

fun go_string :: "gvalue \<Rightarrow> string option" where
  "go_string (VString Plain s) = Some s"
| "go_string (VIface nm (BString s)) = Some s"
| "go_string _ = None"

text \<open>
  The bytes of a raw address: of a \<^verbatim>\<open>[]byte\<close>, of an array of bytes of any type, or of
  an address value.
\<close>

fun byte_payload :: "gvalue \<Rightarrow> byte list option" where
  "byte_payload (VBytes Plain b) = Some b"
| "byte_payload (VByteArray t b) = Some b"
| "byte_payload (VAddress b) = Some b"
| "byte_payload _ = None"

text \<open>
  The bytes and the string that a value holds in any way: in a slice or an array of
  bytes of any type, in an interface, read from an unexported field or not.
\<close>

fun any_bytes :: "gvalue \<Rightarrow> byte list option" where
  "any_bytes (VBytes t b) = Some b"
| "any_bytes (VByteArray t b) = Some b"
| "any_bytes (VAddress b) = Some b"
| "any_bytes (VIface nm (BBytes b)) = Some b"
| "any_bytes (VIface nm (BAddress b)) = Some b"
| "any_bytes (VUnexported v) = any_bytes v"
| "any_bytes _ = None"

fun any_string :: "gvalue \<Rightarrow> string option" where
  "any_string (VString t s) = Some s"
| "any_string (VIface nm (BString s)) = Some s"
| "any_string (VUnexported v) = any_string v"
| "any_string _ = None"

text \<open>
  The inputs whose payload does not exceed what the element's encoding holds: at most
  32 bytes for Address, FixedBytes and Function, and for String and Bytes a length
  \<open>l\<close> for which \<open>l + 31\<close> is a 64-bit \<^verbatim>\<open>int\<close>. In the earlier revision the String tag
  packs the rendering \<^verbatim>\<open>String()\<close> of any value that has a length \<^verbatim>\<open>Len()\<close>: there
  the rendering is to be no longer than \<open>ceil(Len()/32)*32\<close>.
\<close>

definition fits_int :: "nat \<Rightarrow> bool" where
  "fits_int n = (int n \<le> 2 ^ 63 - 32)"

definition fits_word :: "gvalue \<Rightarrow> bool" where
  "fits_word v = (case any_bytes v of None \<Rightarrow> True | Some b \<Rightarrow> length b \<le> 32)"

fun fits :: "abi_ty \<Rightarrow> gvalue \<Rightarrow> bool" where
  "fits AddressTy v = fits_word v"
| "fits FixedBytesTy v = fits_word v"
| "fits FunctionTy v = fits_word v"
| "fits StringTy v = (case any_string v of None \<Rightarrow> True | Some s \<Rightarrow> fits_int (length s))"
| "fits BytesTy v = (case any_bytes v of None \<Rightarrow> True | Some b \<Rightarrow> fits_int (length b))"
| "fits _ v = True"

fun fits_p0 :: "abi_ty \<Rightarrow> gvalue \<Rightarrow> bool" where
  "fits_p0 StringTy v =
     (case Value_Len v of
        None \<Rightarrow> True
      | Some l \<Rightarrow>
          0 \<le> sint l \<and> sint l \<le> 2 ^ 63 - 32
          \<and> length (Value_String v) \<le> padded_length (sint l))"
| "fits_p0 t v = fits t v"

section \<open>Big-endian bytes\<close>

lemma be_value_snoc: "be_value (bs @ [b]) = 256 * be_value bs + unat b"
  by (simp add: be_value_def)

lemma be_value_big_Bytes: "be_value (big_Bytes x) = x"
proof (induction x rule: big_Bytes.induct)
  case (1 x)
  show ?case
  proof (cases "x = 0")
    case True
    then show ?thesis by (simp add: big_Bytes.simps be_value_def)
  next
    case False
    have "unat (of_nat (x mod 256) :: byte) = x mod 256"
      by (simp add: unat_of_nat)
    with False 1 show ?thesis
      by (subst big_Bytes.simps) (simp add: be_value_snoc)
  qed
qed

lemma length_big_Bytes: "x < 256 ^ k \<Longrightarrow> length (big_Bytes x) \<le> k"
proof (induction x arbitrary: k rule: big_Bytes.induct)
  case (1 x)
  show ?case
  proof (cases "x = 0")
    case True
    then show ?thesis by (simp add: big_Bytes.simps)
  next
    case False
    with "1.prems" obtain j where k: "k = Suc j" by (cases k) auto
    with "1.prems" have "x div 256 < 256 ^ j"
      by (simp add: less_mult_imp_div_less mult.commute)
    with False "1.IH" have "length (big_Bytes (x div 256)) \<le> j" by blast
    with False k show ?thesis
      by (subst big_Bytes.simps) simp
  qed
qed

lemma be_value_zeros: "be_value (replicate k 0 @ bs) = be_value bs"
  by (induction k) (simp_all add: be_value_def)

lemma length_LeftPadBytes: "int (length bs) \<le> l \<Longrightarrow> length (LeftPadBytes bs l) = nat l"
  by (auto simp: LeftPadBytes_def)

lemma be_value_LeftPadBytes: "be_value (LeftPadBytes bs l) = be_value bs"
  by (simp add: LeftPadBytes_def be_value_zeros)

lemma U256_range: "0 \<le> U256 n \<and> U256 n < 2 ^ 256"
  by (simp add: U256_def)

lemma length_U256Bytes: "length (U256Bytes n) = 32"
proof -
  have "nat \<bar>U256 n\<bar> < 256 ^ 32"
    using U256_range [of n] by (simp add: nat_less_iff)
  then have "length (big_Bytes (nat \<bar>U256 n\<bar>)) \<le> 32"
    by (rule length_big_Bytes)
  then show ?thesis
    by (simp add: U256Bytes_def PaddedBigBytes_def length_LeftPadBytes)
qed

lemma be_value_U256Bytes: "int (be_value (U256Bytes n)) = n mod 2 ^ 256"
  using U256_range [of n]
  by (simp add: U256Bytes_def PaddedBigBytes_def be_value_LeftPadBytes be_value_big_Bytes U256_def)

section \<open>The padding target\<close>

lemma ceiling_div_32: "\<lceil>real_of_int l / 32\<rceil> = (l + 31) div 32"
proof -
  have "\<lceil>real_of_int l / real_of_int 32\<rceil> = - (- l div 32)"
    by (rule ceiling_divide_eq_div)
  then show ?thesis by simp
qed

lemma padded_length_eq: "0 \<le> l \<Longrightarrow> int (padded_length l) = (l + 31) div 32 * 32"
  by (simp add: padded_length_def ceiling_div_32)

lemma sint_word_of_int_64:
  "- (2 ^ 63) \<le> x \<Longrightarrow> x < 2 ^ 63 \<Longrightarrow> sint (word_of_int x :: 64 word) = x"
  by (simp add: sint_sbintrunc' signed_take_bit_int_eq_self)

lemma go_pad_target:
  fixes l :: "64 word"
  assumes "0 \<le> sint l" and "sint l \<le> 2 ^ 63 - 32"
  shows "sint (go_div (l + 31) 32 * 32) = (sint l + 31) div 32 * 32"
proof -
  let ?k = "sint l + 31"
  have k: "0 \<le> ?k" "?k < 2 ^ 63" using assms by simp_all
  have "sint (l + 31) = signed_take_bit 63 ?k"
    by (simp add: sint_word_add)
  also have "\<dots> = ?k"
    using k by (intro signed_take_bit_int_eq_self) simp_all
  finally have s1: "sint (l + 31) = ?k" .
  have q: "?k sdiv 32 = ?k div 32"
    using k by (simp add: signed_divide_int_def sgn_if)
  have qb: "0 \<le> ?k div 32" "?k div 32 * 32 \<le> ?k"
    using k by simp_all
  have "sint (go_div (l + 31) 32) = sint (word_of_int (?k div 32) :: 64 word)"
    by (simp add: go_div_def s1 q)
  also have "\<dots> = ?k div 32"
    using k qb by (intro sint_word_of_int_64) linarith+
  finally have s2: "sint (go_div (l + 31) 32) = ?k div 32" .
  have "sint (go_div (l + 31) 32 * 32) = signed_take_bit 63 (?k div 32 * 32)"
    by (simp add: sint_word_mult s2)
  also have "\<dots> = ?k div 32 * 32"
    using k qb by (intro signed_take_bit_int_eq_self) linarith+
  finally show ?thesis .
qed

section \<open>Decimal strings\<close>

lemma digit_code:
  "is_decimal_digit c \<longleftrightarrow> 48 \<le> (of_char c :: nat) \<and> (of_char c :: nat) \<le> 57"
  by (simp add: is_decimal_digit_def less_eq_char_def)

lemma digit_val_eq:
  "digit_val c = (if is_decimal_digit c then Some (of_char c - 48) else None)"
  by (simp add: digit_val_def digit_code Let_def)

lemma scan_digits_eq:
  "scan_digits acc cs =
     (if list_all is_decimal_digit cs
      then Some (foldl (\<lambda>a c. 10 * a + (of_char c - 48)) acc cs) else None)"
  by (induction cs arbitrary: acc) (simp_all add: digit_val_eq)

lemma scan_number_eq: "scan_number s = unsigned_decimal s"
  by (simp add: scan_number_def unsigned_decimal_def scan_digits_eq decimal_value_def)

lemma SetString_eq: "SetString s = signed_decimal s"
  by (cases s) (simp_all add: signed_decimal_def scan_number_eq)

lemma digit_not_plus: "is_decimal_digit c \<Longrightarrow> c \<noteq> CHR ''+''"
  by (auto simp: digit_code)

lemma decimal_literal_SetString: "decimal_literal s = Some n \<Longrightarrow> SetString s = Some n"
proof (cases s)
  case Nil
  then show "decimal_literal s = Some n \<Longrightarrow> SetString s = Some n"
    by (simp add: decimal_literal_def)
next
  case (Cons c cs)
  assume d: "decimal_literal s = Some n"
  show "SetString s = Some n"
  proof (cases "c = CHR ''-''")
    case True
    with d Cons show ?thesis
      by (simp add: decimal_literal_def scan_number_eq)
  next
    case False
    with d Cons have u: "map_option int (unsigned_decimal (c # cs)) = Some n"
      by (simp add: decimal_literal_def)
    then have "is_decimal_digit c"
      by (auto simp: unsigned_decimal_def split: if_splits)
    then have "c \<noteq> CHR ''+''" by (rule digit_not_plus)
    with False u Cons show ?thesis
      by (simp add: scan_number_eq)
  qed
qed

section \<open>Numbers\<close>

lemma uint_ucast_8: "uint (ucast (w :: 8 word) :: 64 word) = uint w"
  by (simp add: uint_up_ucast is_up)

lemma uint_ucast_16: "uint (ucast (w :: 16 word) :: 64 word) = uint w"
  by (simp add: uint_up_ucast is_up)

lemma uint_ucast_32: "uint (ucast (w :: 32 word) :: 64 word) = uint w"
  by (simp add: uint_up_ucast is_up)

lemma sint_scast_8: "sint (scast (w :: 8 word) :: 64 word) = sint w"
  by (simp add: sint_up_scast is_up)

lemma sint_scast_16: "sint (scast (w :: 16 word) :: 64 word) = sint w"
  by (simp add: sint_up_scast is_up)

lemma sint_scast_32: "sint (scast (w :: 32 word) :: 64 word) = sint w"
  by (simp add: sint_up_scast is_up)

lemmas casts = uint_ucast_8 uint_ucast_16 uint_ucast_32 sint_scast_8 sint_scast_16 sint_scast_32

lemma packNum_VInt [simp]: "packNum (VInt t l) = Return (U256Bytes (sint l)) None"
  by (simp add: packNum_def)

lemma packNum_p0_VInt [simp]: "packNum_p0 (VInt t l) = Return (U256Bytes (sint l)) None"
  by (simp add: packNum_p0_def)

lemma packNum_VString [simp]:
  "packNum (VString Plain s) =
     (case SetString s of
        None \<Rightarrow> Return [] (Some InvalidNumericString)
      | Some bn \<Rightarrow> Return (U256Bytes bn) None)"
  "packNum_p0 (VString Plain s) =
     (case SetString s of
        None \<Rightarrow> Return [] (Some InvalidNumericString)
      | Some bn \<Rightarrow> Return (U256Bytes bn) None)"
  by (simp_all add: packNum_def packNum_p0_def)

lemma packNum_VBigInt [simp]:
  "packNum (VBigInt n) = Return (U256Bytes n) None"
  "packNum_p0 (VBigInt n) = Return (U256Bytes n) None"
  by (simp_all add: packNum_def packNum_p0_def)

lemma packNum_numeric:
  assumes "numeric_value v = Some n"
  shows "packNum v = Return (U256Bytes n) None" and "packNum_p0 v = Return (U256Bytes n) None"
proof -
  have "packNum v = Return (U256Bytes n) None \<and> packNum_p0 v = Return (U256Bytes n) None"
  proof (cases v)
    case (VString t s)
    with assms have t: "t = Plain" by (cases t) simp_all
    with assms VString have "SetString s = Some n"
      by (simp add: decimal_literal_SetString)
    with VString t show ?thesis by simp
  qed (use assms in \<open>simp_all add: packNum_def packNum_p0_def casts\<close>)
  then show "packNum v = Return (U256Bytes n) None"
    and "packNum_p0 v = Return (U256Bytes n) None"
    by simp_all
qed

lemma replicate_32:
  "replicate 32 x = [x,x,x,x,x,x,x,x,x,x,x,x,x,x,x,x,x,x,x,x,x,x,x,x,x,x,x,x,x,x,x,x]"
  by (simp add: numeral_eq_Suc)

lemmas eval_bytes = U256Bytes_def U256_def PaddedBigBytes_def LeftPadBytes_def RightPadBytes_def
  big_Bytes.simps

text \<open>
  Claim C1, amended. For every value of an unsigned or signed integer kind of 8, 16, 32
  or 64 bits or of kind \<^verbatim>\<open>uint\<close> or \<^verbatim>\<open>int\<close>, of a predeclared or a defined type, every
  non-nil \<^verbatim>\<open>*big.Int\<close> and every \<^verbatim>\<open>string\<close> that is a decimal literal with an optional
  leading minus, both revisions of \<open>packNum\<close> return, with no error, exactly 32 bytes that
  are the big-endian encoding of the value reduced modulo \<open>2^256\<close>. The reduction maps a
  negative value to its 256-bit two's complement: \<open>-1\<close> is encoded as 32 bytes \<open>0xFF\<close>.
  The value \<open>n\<close> is not bounded, so a magnitude beyond 256 bits wraps around and is no
  error. A \<^verbatim>\<open>uintptr\<close> is no supported integer: both revisions return
  UnsupportedNumericType for it.
\<close>

theorem packNum_word_mod_2_256:
  "(numeric_value v = Some n \<longrightarrow>
      (\<exists>bs. packNum v = Return bs None \<and> packNum_p0 v = Return bs None
         \<and> length bs = 32 \<and> int (be_value bs) = n mod 2 ^ 256))
   \<and> packNum (VInt64 Plain (- 1)) = Return (replicate 32 255) None
   \<and> packNum_p0 (VInt64 Plain (- 1)) = Return (replicate 32 255) None
   \<and> packNum (VUintptr t w) = Return [] (Some UnsupportedNumericType)
   \<and> packNum_p0 (VUintptr t w) = Return [] (Some UnsupportedNumericType)"
proof (intro conjI impI)
  assume nv: "numeric_value v = Some n"
  have "packNum v = Return (U256Bytes n) None"
    using nv by (rule packNum_numeric)
  moreover have "packNum_p0 v = Return (U256Bytes n) None"
    using nv by (rule packNum_numeric)
  ultimately show "\<exists>bs. packNum v = Return bs None \<and> packNum_p0 v = Return bs None
         \<and> length bs = 32 \<and> int (be_value bs) = n mod 2 ^ 256"
    by (simp add: length_U256Bytes be_value_U256Bytes)
next
  show "packNum (VInt64 Plain (- 1)) = Return (replicate 32 255) None"
    by (simp add: packNum_def eval_bytes replicate_32)
next
  show "packNum_p0 (VInt64 Plain (- 1)) = Return (replicate 32 255) None"
    by (simp add: packNum_p0_def eval_bytes replicate_32)
next
  show "packNum (VUintptr t w) = Return [] (Some UnsupportedNumericType)"
    by (simp add: packNum_def)
next
  show "packNum_p0 (VUintptr t w) = Return [] (Some UnsupportedNumericType)"
    by (simp add: packNum_p0_def)
qed

theorem packNum_word_mod_2_256_witness:
  "numeric_value (VString Plain ''-300'') = Some (- 300)
   \<and> (\<exists>bs. packNum (VString Plain ''-300'') = Return bs None
         \<and> packNum_p0 (VString Plain ''-300'') = Return bs None
         \<and> length bs = 32 \<and> int (be_value bs) = (- 300) mod 2 ^ 256)"
proof -
  have h: "numeric_value (VString Plain ''-300'') = Some (- 300)"
    by (simp add: decimal_literal_def unsigned_decimal_def digit_code decimal_value_def)
  show ?thesis
    using h packNum_word_mod_2_256 [of "VString Plain ''-300''" "- 300"] by blast
qed

text \<open>
  Claim C1 as stated fails on a \<^verbatim>\<open>uintptr\<close>, an unsigned machine integer that no case
  of \<open>packNum\<close> names: the value 5 is not packed as the number 5, an error is returned.
\<close>

theorem packNum_uintptr_counterexample:
  "packNum (VUintptr Plain 5) \<noteq> Return (U256Bytes 5) None
   \<and> packNum_p0 (VUintptr Plain 5) \<noteq> Return (U256Bytes 5) None
   \<and> packNum (VUintptr Plain 5) = Return [] (Some UnsupportedNumericType)
   \<and> packNum_p0 (VUintptr Plain 5) = Return [] (Some UnsupportedNumericType)"
  by (simp add: packNum_def packNum_p0_def)

section \<open>Length-prefixed payloads\<close>

lemma packBytesSlice_eq:
  "packBytesSlice p l =
     Return (U256Bytes (sint l) @ RightPadBytes p (sint (go_div (l + 31) 32 * 32))) None"
  by (simp add: packBytesSlice_def)

lemma packBytesSlice_p0_eq:
  "packBytesSlice_p0 p l =
     Return (U256Bytes (sint l) @ RightPadBytes p (sint (go_div (l + 31) 32 * 32))) None"
  by (simp add: packBytesSlice_p0_def)

lemma RightPadBytes_right_pad: "RightPadBytes p (int k) = right_pad p k"
  by (simp add: RightPadBytes_def right_pad_def)

lemma pad_target_padded_length:
  fixes l :: "64 word"
  assumes "0 \<le> sint l" and "sint l \<le> 2 ^ 63 - 32"
  shows "sint (go_div (l + 31) 32 * 32) = int (padded_length (sint l))"
  using assms by (simp add: go_pad_target padded_length_eq)

text \<open>
  Claim C2, amended. For every byte payload \<open>p\<close> and every logical length \<open>l\<close> with
  \<open>0 \<le> l \<le> 2^63 - 32\<close>, both revisions of \<open>packBytesSlice\<close> return the 32-byte
  encoding of \<open>l\<close> that \<open>packNum\<close> gives, followed by \<open>p\<close> padded on the right with zero
  bytes to \<open>ceil(l/32)*32\<close> bytes; a payload longer than that target is not truncated
  and follows the length word in full.
\<close>

theorem packBytesSlice_length_prefixed:
  "0 \<le> sint l \<and> sint l \<le> 2 ^ 63 - 32 \<longrightarrow>
     packNum (VInt Plain l) = Return (U256Bytes (sint l)) None
   \<and> packNum_p0 (VInt Plain l) = Return (U256Bytes (sint l)) None
   \<and> length (U256Bytes (sint l)) = 32
   \<and> packBytesSlice p l =
       Return (U256Bytes (sint l) @ right_pad p (padded_length (sint l))) None
   \<and> packBytesSlice_p0 p l =
       Return (U256Bytes (sint l) @ right_pad p (padded_length (sint l))) None
   \<and> (padded_length (sint l) < length p \<longrightarrow>
        packBytesSlice p l = Return (U256Bytes (sint l) @ p) None
      \<and> packBytesSlice_p0 p l = Return (U256Bytes (sint l) @ p) None)"
proof (intro impI)
  assume a: "0 \<le> sint l \<and> sint l \<le> 2 ^ 63 - 32"
  then have t: "sint (go_div (l + 31) 32 * 32) = int (padded_length (sint l))"
    by (simp add: pad_target_padded_length)
  show "packNum (VInt Plain l) = Return (U256Bytes (sint l)) None
   \<and> packNum_p0 (VInt Plain l) = Return (U256Bytes (sint l)) None
   \<and> length (U256Bytes (sint l)) = 32
   \<and> packBytesSlice p l =
       Return (U256Bytes (sint l) @ right_pad p (padded_length (sint l))) None
   \<and> packBytesSlice_p0 p l =
       Return (U256Bytes (sint l) @ right_pad p (padded_length (sint l))) None
   \<and> (padded_length (sint l) < length p \<longrightarrow>
        packBytesSlice p l = Return (U256Bytes (sint l) @ p) None
      \<and> packBytesSlice_p0 p l = Return (U256Bytes (sint l) @ p) None)"
    by (simp add: packBytesSlice_eq packBytesSlice_p0_eq t RightPadBytes_right_pad
        length_U256Bytes right_pad_def)
qed

lemma padded_length_2: "padded_length 2 = 32"
  using padded_length_eq [of 2] by simp

lemma padded_length_0: "padded_length 0 = 0"
  by (simp add: padded_length_def)

theorem packBytesSlice_length_prefixed_witness:
  "(0 \<le> sint (2 :: 64 word) \<and> sint (2 :: 64 word) \<le> 2 ^ 63 - 32
     \<and> packBytesSlice [104, 105] 2 = Return (U256Bytes 2 @ [104, 105] @ replicate 30 0) None
     \<and> packBytesSlice_p0 [104, 105] 2 = Return (U256Bytes 2 @ [104, 105] @ replicate 30 0) None)
   \<and> (0 \<le> sint (0 :: 64 word) \<and> sint (0 :: 64 word) \<le> 2 ^ 63 - 32
     \<and> padded_length (sint (0 :: 64 word)) < length [1 :: byte]
     \<and> packBytesSlice [1] 0 = Return (U256Bytes 0 @ [1]) None
     \<and> packBytesSlice_p0 [1] 0 = Return (U256Bytes 0 @ [1]) None)"
proof -
  have h2: "0 \<le> sint (2 :: 64 word) \<and> sint (2 :: 64 word) \<le> 2 ^ 63 - 32" by simp
  have h0: "0 \<le> sint (0 :: 64 word) \<and> sint (0 :: 64 word) \<le> 2 ^ 63 - 32" by simp
  have k0: "padded_length (sint (0 :: 64 word)) < length [1 :: byte]"
    by (simp add: padded_length_0)
  show ?thesis
    using h2 h0 k0 packBytesSlice_length_prefixed [of 2 "[104, 105]"]
      packBytesSlice_length_prefixed [of 0 "[1]"]
    by (simp add: padded_length_2 padded_length_0 right_pad_def)
qed

lemma go_pad_target_max:
  "sint (go_div ((0x7FFFFFFFFFFFFFFF :: 64 word) + 31) 32 * 32) < 0"
  by (simp add: go_div_def signed_divide_int_def)

text \<open>
  Claim C2 as stated fails for the largest lengths: at \<open>l = 2^63 - 1\<close> the sum
  \<^verbatim>\<open>l+31\<close> wraps around to a negative \<^verbatim>\<open>int\<close>, the padding target is negative and the
  empty payload is not padded at all.
\<close>

theorem packBytesSlice_maxint_counterexample:
  "\<not> (0 \<le> sint (0x7FFFFFFFFFFFFFFF :: 64 word) \<longrightarrow>
      packBytesSlice [] 0x7FFFFFFFFFFFFFFF =
        Return (U256Bytes (sint (0x7FFFFFFFFFFFFFFF :: 64 word))
                @ right_pad [] (padded_length (sint (0x7FFFFFFFFFFFFFFF :: 64 word)))) None)"
proof -
  have p: "0 < padded_length (sint (0x7FFFFFFFFFFFFFFF :: 64 word))"
    by (simp add: padded_length_def ceiling_div_32)
  then have "right_pad [] (padded_length (sint (0x7FFFFFFFFFFFFFFF :: 64 word))) \<noteq> []"
    by (simp add: right_pad_def)
  moreover have "packBytesSlice [] 0x7FFFFFFFFFFFFFFF
      = Return (U256Bytes (sint (0x7FFFFFFFFFFFFFFF :: 64 word))) None"
    using go_pad_target_max by (simp add: packBytesSlice_eq RightPadBytes_def)
  moreover have "0 \<le> sint (0x7FFFFFFFFFFFFFFF :: 64 word)" by simp
  ultimately show ?thesis by simp
qed

section \<open>Result lengths\<close>

lemma packNum_length:
  "packNum v = Return bs e \<Longrightarrow> (bs = [] \<and> e \<noteq> None) \<or> (length bs = 32 \<and> e = None)"
  unfolding packNum_def Let_def
  by (auto split: if_splits option.splits simp: length_U256Bytes)

lemma packNum_p0_length:
  "packNum_p0 v = Return bs e \<Longrightarrow> (bs = [] \<and> e \<noteq> None) \<or> (length bs = 32 \<and> e = None)"
  unfolding packNum_p0_def Let_def
  by (auto split: if_splits option.splits simp: length_U256Bytes)

lemma packNum_dvd: "packNum v = Return bs e \<Longrightarrow> 32 dvd length bs"
  using packNum_length [of v bs e] by auto

lemma packNum_p0_dvd: "packNum_p0 v = Return bs e \<Longrightarrow> 32 dvd length bs"
  using packNum_p0_length [of v bs e] by auto

lemma length_right_pad: "length p \<le> k \<Longrightarrow> length (right_pad p k) = k"
  by (simp add: right_pad_def)

lemma padded_length_dvd: "32 dvd padded_length l"
  by (simp add: padded_length_def)

lemma packBytesSlice_fit:
  assumes "0 \<le> sint l" and "sint l \<le> 2 ^ 63 - 32" and "length p \<le> padded_length (sint l)"
  shows "packBytesSlice p l
      = Return (U256Bytes (sint l) @ right_pad p (padded_length (sint l))) None"
    and "packBytesSlice_p0 p l
      = Return (U256Bytes (sint l) @ right_pad p (padded_length (sint l))) None"
    and "32 dvd length (U256Bytes (sint l) @ right_pad p (padded_length (sint l)))"
  using assms
  by (simp_all add: packBytesSlice_eq packBytesSlice_p0_eq pad_target_padded_length
      RightPadBytes_right_pad length_right_pad length_U256Bytes padded_length_dvd)

lemma packBytesSlice_dvd:
  assumes "0 \<le> sint l" and "sint l \<le> 2 ^ 63 - 32" and "length p \<le> padded_length (sint l)"
  shows "packBytesSlice p l = Return bs e \<Longrightarrow> 32 dvd length bs"
    and "packBytesSlice_p0 p l = Return bs e \<Longrightarrow> 32 dvd length bs"
  using packBytesSlice_fit [OF assms] by auto

lemma sint_len: "fits_int (length xs) \<Longrightarrow> sint (len xs) = int (length xs)"
proof -
  assume "fits_int (length xs)"
  then have "int (length xs) < 2 ^ 63" by (simp add: fits_int_def)
  then have "sint (word_of_int (int (length xs)) :: 64 word) = int (length xs)"
    by (intro sint_word_of_int_64) simp_all
  then show ?thesis by (simp add: len_def)
qed

lemma le_padded_length: "0 \<le> l \<Longrightarrow> l \<le> int (padded_length l)"
  by (simp add: padded_length_eq)

lemma packBytesSlice_len_dvd:
  assumes "fits_int (length p)"
  shows "packBytesSlice p (len p) = Return bs e \<Longrightarrow> 32 dvd length bs"
    and "packBytesSlice_p0 p (len p) = Return bs e \<Longrightarrow> 32 dvd length bs"
proof -
  have s: "sint (len p) = int (length p)" using assms by (rule sint_len)
  have b: "0 \<le> sint (len p)" "sint (len p) \<le> 2 ^ 63 - 32"
    using assms by (simp_all add: s fits_int_def)
  have "int (length p) \<le> int (padded_length (sint (len p)))"
    using le_padded_length [of "int (length p)"] by (simp add: s)
  then have c: "length p \<le> padded_length (sint (len p))" by simp
  show "packBytesSlice p (len p) = Return bs e \<Longrightarrow> 32 dvd length bs"
    using packBytesSlice_dvd(1) [OF b c] .
  show "packBytesSlice_p0 p (len p) = Return bs e \<Longrightarrow> 32 dvd length bs"
    using packBytesSlice_dvd(2) [OF b c] .
qed

lemma length_BytesToAddress: "length (BytesToAddress b) = 20"
  by (simp add: BytesToAddress_def Let_def)

lemma length_HexToAddress: "length (HexToAddress s) = 20"
  by (simp add: HexToAddress_def length_BytesToAddress)

lemma length_LeftPadBytes_32: "length b \<le> 32 \<Longrightarrow> length (LeftPadBytes b 32) = 32"
  by (simp add: LeftPadBytes_def)

lemma length_RightPadBytes_32: "length b \<le> 32 \<Longrightarrow> length (RightPadBytes b 32) = 32"
  by (simp add: RightPadBytes_def)

lemma length_PaddedBigBytes_bool:
  "length (PaddedBigBytes Big1 32) = 32" "length (PaddedBigBytes Big0 32) = 32"
  by (simp_all add: PaddedBigBytes_def LeftPadBytes_def big_Bytes.simps Big1_def Big0_def)

lemma length_bytes_of: "length (bytes_of s) = length s"
  by (simp add: bytes_of_def)

lemma len_bytes_of: "len (bytes_of s) = len s"
  by (simp add: len_def length_bytes_of)

text \<open>What the accessors tell about the value.\<close>

lemma Interface_string: "Interface v = Some x \<Longrightarrow> as_string x = Some s \<Longrightarrow> go_string v = Some s"
  by (cases x; cases v rule: Interface.cases) auto

lemma go_string_Interface: "go_string v = Some s \<Longrightarrow> Interface v = Some (BString s)"
  by (cases v rule: go_string.cases) auto

lemma go_string_any: "go_string v = Some s \<Longrightarrow> any_string v = Some s"
  by (cases v rule: go_string.cases) auto

lemma Interface_bytes: "Interface v = Some x \<Longrightarrow> as_bytes x = Some b \<Longrightarrow> any_bytes v = Some b"
  by (cases x; cases v rule: Interface.cases) auto

lemma Interface_Address:
  "Interface v = Some x \<Longrightarrow> as_Address x = Some b \<Longrightarrow> any_bytes v = Some b"
  by (cases x; cases v rule: Interface.cases) auto

lemma Value_Bytes_any: "Value_Bytes v = Some b \<Longrightarrow> any_bytes v = Some b"
  by (induction v) auto

lemma mustArrayToByteSlice_Some:
  "mustArrayToByteSlice v = Some rv \<Longrightarrow> \<exists>b. rv = VBytes Plain b \<and> any_bytes v = Some b"
  by (cases v) auto

lemma arrayToSlice_cases:
  "arrayToSlice v = Some rv \<Longrightarrow>
     (\<exists>b. rv = VBytes Plain b \<and> any_bytes v = Some b) \<or> (rv = v \<and> Kind v \<noteq> KArray)"
  by (auto simp: arrayToSlice_def split: if_splits dest: mustArrayToByteSlice_Some)

lemma arrayToSlice_Value_Bytes:
  "arrayToSlice v = Some rv \<Longrightarrow> Value_Bytes rv = Some b \<Longrightarrow> any_bytes v = Some b"
  by (auto dest!: arrayToSlice_cases dest: Value_Bytes_any)

lemma arrayToSlice_Interface_bytes:
  "arrayToSlice v = Some rv \<Longrightarrow> Interface rv = Some x \<Longrightarrow> as_bytes x = Some b
     \<Longrightarrow> any_bytes v = Some b"
  by (auto dest!: arrayToSlice_cases dest: Interface_bytes)

lemma arrayToSlice_Interface_Address:
  "arrayToSlice v = Some rv \<Longrightarrow> Interface rv = Some x \<Longrightarrow> as_Address x = Some b
     \<Longrightarrow> any_bytes v = Some b"
  by (auto dest!: arrayToSlice_cases dest: Interface_Address)

lemma Type_is_bytes_Len:
  "Type_is_bytes v = Some True \<Longrightarrow> Value_Bytes v = Some b \<Longrightarrow> Value_Len v = Some l
     \<Longrightarrow> l = len b"
  by (induction v) (auto split: tyname.splits)

lemma addressOfString_cases:
  "addressOfString hex v = Inl Panic
   \<or> addressOfString hex v = Inl (Return [] (Some InvalidAddress))
   \<or> (\<exists>s. addressOfString hex v = Inr (VAddress (HexToAddress s)))
   \<or> addressOfString hex v = Inr v"
  by (auto simp: addressOfString_def split: option.split)

lemma addressOfString_p0_cases:
  "addressOfString_p0 hex v = Inl Panic
   \<or> addressOfString_p0 hex v = Inl (Return [] (Some InvalidAddress))
   \<or> (\<exists>s. addressOfString_p0 hex v = Inr (VAddress (HexToAddress s)))
   \<or> addressOfString_p0 hex v = Inr v"
  by (auto simp: addressOfString_p0_def Let_def split: option.split bool.split)

lemma arrayToSlice_VAddress [simp]: "arrayToSlice (VAddress a) = Some (VBytes Plain a)"
  by (simp add: arrayToSlice_def)

lemma Address_dvd:
  assumes f: "fits_word v" and r: "packElement hex AddressTy v = Return bs e"
  shows "32 dvd length bs"
proof -
  consider (pan) "addressOfString hex v = Inl Panic"
    | (err) "addressOfString hex v = Inl (Return [] (Some InvalidAddress))"
    | (str) s where "addressOfString hex v = Inr (VAddress (HexToAddress s))"
    | (oth) "addressOfString hex v = Inr v"
    using addressOfString_cases [of hex v] by blast
  then show ?thesis
  proof cases
    case pan
    with r show ?thesis by simp
  next
    case err
    with r show ?thesis by auto
  next
    case str
    with r show ?thesis
      by (auto simp: length_HexToAddress length_LeftPadBytes_32)
  next
    case oth
    from r oth obtain rv x where rv: "arrayToSlice v = Some rv" and x: "Interface rv = Some x"
      by (auto split: option.splits)
    show ?thesis
    proof (cases "as_bytes x")
      case (Some b)
      with rv x have "any_bytes v = Some b" by (auto dest: arrayToSlice_Interface_bytes)
      with f have "length b \<le> 32" by (simp add: fits_word_def)
      with r oth rv x Some show ?thesis
        by (auto simp: length_LeftPadBytes_32)
    next
      case None
      show ?thesis
      proof (cases "as_Address x")
        case (Some b)
        with rv x have "any_bytes v = Some b" by (auto dest: arrayToSlice_Interface_Address)
        with f have "length b \<le> 32" by (simp add: fits_word_def)
        with r oth rv x None Some show ?thesis
          by (auto simp: length_LeftPadBytes_32)
      next
        case n2: None
        with r oth rv x None show ?thesis by auto
      qed
    qed
  qed
qed

lemma Address_p0_dvd:
  assumes f: "fits_word v" and r: "packElement_p0 hex AddressTy v = Return bs e"
  shows "32 dvd length bs"
proof -
  consider (pan) "addressOfString_p0 hex v = Inl Panic"
    | (err) "addressOfString_p0 hex v = Inl (Return [] (Some InvalidAddress))"
    | (str) s where "addressOfString_p0 hex v = Inr (VAddress (HexToAddress s))"
    | (oth) "addressOfString_p0 hex v = Inr v"
    using addressOfString_p0_cases [of hex v] by blast
  then show ?thesis
  proof cases
    case pan
    with r show ?thesis by simp
  next
    case err
    with r show ?thesis by auto
  next
    case str
    with r show ?thesis
      by (auto simp: length_HexToAddress length_LeftPadBytes_32)
  next
    case oth
    from r oth obtain rv b where rv: "arrayToSlice v = Some rv" and b: "Value_Bytes rv = Some b"
      by (auto split: option.splits)
    then have "any_bytes v = Some b" by (rule arrayToSlice_Value_Bytes)
    with f have "length b \<le> 32" by (simp add: fits_word_def)
    with r oth rv b show ?thesis
      by (auto simp: length_LeftPadBytes_32)
  qed
qed

lemma FixedBytes_dvd:
  assumes f: "fits_word v"
  shows "packElement hex FixedBytesTy v = Return bs e \<Longrightarrow> 32 dvd length bs"
    and "packElement_p0 hex FixedBytesTy v = Return bs e \<Longrightarrow> 32 dvd length bs"
    and "packElement hex FunctionTy v = Return bs e \<Longrightarrow> 32 dvd length bs"
    and "packElement_p0 hex FunctionTy v = Return bs e \<Longrightarrow> 32 dvd length bs"
proof -
  have k: "length b \<le> 32" if "arrayToSlice v = Some rv" "Value_Bytes rv = Some b" for rv b
    using arrayToSlice_Value_Bytes [OF that] f by (simp add: fits_word_def)
  show "packElement hex FixedBytesTy v = Return bs e \<Longrightarrow> 32 dvd length bs"
    by (auto split: option.splits simp: length_RightPadBytes_32 dest: k)
  show "packElement_p0 hex FixedBytesTy v = Return bs e \<Longrightarrow> 32 dvd length bs"
    by (auto split: option.splits simp: length_RightPadBytes_32 dest: k)
  show "packElement hex FunctionTy v = Return bs e \<Longrightarrow> 32 dvd length bs"
    by (auto split: option.splits simp: length_RightPadBytes_32 dest: k)
  show "packElement_p0 hex FunctionTy v = Return bs e \<Longrightarrow> 32 dvd length bs"
    by (auto split: option.splits simp: length_RightPadBytes_32 dest: k)
qed

lemma Bool_dvd:
  "packElement hex BoolTy v = Return bs e \<Longrightarrow> 32 dvd length bs"
  "packElement_p0 hex BoolTy v = Return bs e \<Longrightarrow> 32 dvd length bs"
  by (auto split: option.splits if_splits simp: length_PaddedBigBytes_bool)

lemma Bytes_dvd:
  assumes f: "fits BytesTy v"
  shows "packElement hex BytesTy v = Return bs e \<Longrightarrow> 32 dvd length bs"
    and "packElement_p0 hex BytesTy v = Return bs e \<Longrightarrow> 32 dvd length bs"
proof -
  have k: "l = len b \<and> fits_int (length b)"
    if "arrayToSlice v = Some rv" "Type_is_bytes rv = Some True" "Value_Bytes rv = Some b"
      "Value_Len rv = Some l" for rv b l
  proof -
    from that have "l = len b" by (auto dest: Type_is_bytes_Len)
    moreover from that have "any_bytes v = Some b" by (auto dest: arrayToSlice_Value_Bytes)
    ultimately show ?thesis using f by simp
  qed
  show "packElement hex BytesTy v = Return bs e \<Longrightarrow> 32 dvd length bs"
    by (auto split: option.splits bool.splits dest!: k dest: packBytesSlice_len_dvd(1))
  show "packElement_p0 hex BytesTy v = Return bs e \<Longrightarrow> 32 dvd length bs"
    by (auto split: option.splits bool.splits dest!: k dest: packBytesSlice_len_dvd(2))
qed

lemma String_dvd:
  assumes f: "fits StringTy v" and r: "packElement hex StringTy v = Return bs e"
  shows "32 dvd length bs"
proof (cases "Interface v")
  case None
  with r show ?thesis by simp
next
  case (Some x)
  show ?thesis
  proof (cases "as_string x")
    case None
    with r Some show ?thesis by auto
  next
    case s: (Some s)
    with Some have "any_string v = Some s"
      by (auto dest: Interface_string go_string_any)
    with f have "fits_int (length (bytes_of s))" by (simp add: length_bytes_of)
    moreover from r Some s
    have "packBytesSlice (bytes_of s) (len (bytes_of s)) = Return bs e"
      by (simp add: len_bytes_of)
    ultimately show ?thesis by (rule packBytesSlice_len_dvd)
  qed
qed

lemma String_p0_dvd:
  assumes f: "fits_p0 StringTy v" and r: "packElement_p0 hex StringTy v = Return bs e"
  shows "32 dvd length bs"
proof (cases "Value_Len v")
  case None
  with r show ?thesis by simp
next
  case (Some l)
  with f have b: "0 \<le> sint l" "sint l \<le> 2 ^ 63 - 32"
    and c: "length (bytes_of (Value_String v)) \<le> padded_length (sint l)"
    by (simp_all add: length_bytes_of)
  from r Some have "packBytesSlice_p0 (bytes_of (Value_String v)) l = Return bs e" by simp
  then show ?thesis using packBytesSlice_dvd(2) [OF b c] by blast
qed

lemma packElement_dvd:
  assumes f: "fits t v" and r: "packElement hex t v = Return bs e"
  shows "32 dvd length bs"
proof (cases t)
  case IntTy
  with r show ?thesis by (simp add: packNum_dvd)
next
  case UintTy
  with r show ?thesis by (simp add: packNum_dvd)
next
  case BoolTy
  with r show ?thesis by (simp only: Bool_dvd)
next
  case StringTy
  with f r show ?thesis by (simp only: String_dvd)
next
  case AddressTy
  with f have "fits_word v" by simp
  with r AddressTy show ?thesis by (simp only: Address_dvd)
next
  case FixedBytesTy
  with f have "fits_word v" by simp
  with r FixedBytesTy show ?thesis by (simp only: FixedBytes_dvd)
next
  case FunctionTy
  with f have "fits_word v" by simp
  with r FunctionTy show ?thesis by (simp only: FixedBytes_dvd)
next
  case BytesTy
  with f r show ?thesis by (simp only: Bytes_dvd)
qed (use r in auto)

lemma packElement_p0_dvd:
  assumes f: "fits_p0 t v" and r: "packElement_p0 hex t v = Return bs e"
  shows "32 dvd length bs"
proof (cases t)
  case IntTy
  with r show ?thesis by (simp add: packNum_p0_dvd)
next
  case UintTy
  with r show ?thesis by (simp add: packNum_p0_dvd)
next
  case BoolTy
  with r show ?thesis by (simp only: Bool_dvd)
next
  case StringTy
  with f r show ?thesis by (simp only: String_p0_dvd)
next
  case AddressTy
  with f have "fits_word v" by simp
  with r AddressTy show ?thesis by (simp only: Address_p0_dvd)
next
  case FixedBytesTy
  with f have "fits_word v" by simp
  with r FixedBytesTy show ?thesis by (simp only: FixedBytes_dvd)
next
  case FunctionTy
  with f have "fits_word v" by simp
  with r FunctionTy show ?thesis by (simp only: FixedBytes_dvd)
next
  case BytesTy
  with f have "fits BytesTy v" by simp
  with r BytesTy show ?thesis by (simp only: Bytes_dvd)
qed (use r in auto)

text \<open>Raw byte values under the Address, FixedBytes and Function tags.\<close>

lemma LeftPadBytes_left_pad: "LeftPadBytes b (int k) = left_pad b k"
  by (simp add: LeftPadBytes_def left_pad_def)

lemma LeftPadBytes_32: "LeftPadBytes b 32 = left_pad b 32"
  using LeftPadBytes_left_pad [of b 32] by simp

lemma RightPadBytes_32: "RightPadBytes b 32 = right_pad b 32"
  using RightPadBytes_right_pad [of b 32] by simp

lemma arrayToSlice_payload: "byte_payload v = Some b \<Longrightarrow> arrayToSlice v = Some (VBytes Plain b)"
  by (cases v rule: byte_payload.cases) (simp_all add: arrayToSlice_def)

lemma addressOfString_payload:
  assumes "byte_payload v = Some b"
  shows "addressOfString hex v = Inr v" and "addressOfString_p0 hex v = Inr v"
  using assms
  by (cases v rule: byte_payload.cases; simp add: addressOfString_def addressOfString_p0_def)+

lemma Address_payload:
  assumes "byte_payload v = Some b"
  shows "packElement hex AddressTy v = Return (left_pad b 32) None"
    and "packElement_p0 hex AddressTy v = Return (left_pad b 32) None"
  using assms
  by (simp_all add: addressOfString_payload arrayToSlice_payload LeftPadBytes_32)

lemma FixedBytes_payload:
  assumes "byte_payload v = Some b"
  shows "packElement hex FixedBytesTy v = Return (right_pad b 32) None"
    and "packElement_p0 hex FixedBytesTy v = Return (right_pad b 32) None"
    and "packElement hex FunctionTy v = Return (right_pad b 32) None"
    and "packElement_p0 hex FunctionTy v = Return (right_pad b 32) None"
  using assms by (simp_all add: arrayToSlice_payload RightPadBytes_32)

lemma length_left_pad: "length b \<le> k \<Longrightarrow> length (left_pad b k) = k"
  by (simp add: left_pad_def)

lemma word_payload:
  assumes "t = AddressTy \<or> t = FixedBytesTy \<or> t = FunctionTy"
    and "byte_payload v = Some b" and "length b \<le> 32"
  shows "\<exists>r. packElement hex t v = Return r None \<and> packElement_p0 hex t v = Return r None
           \<and> length r = 32"
  using assms
  by (auto simp only: Address_payload FixedBytes_payload length_left_pad length_right_pad)

lemma fits_String: "fits_int (length s) \<Longrightarrow> fits StringTy (VString tn s) \<and> fits_p0 StringTy (VString tn s)"
proof -
  assume f: "fits_int (length s)"
  then have s: "sint (len s) = int (length s)" by (rule sint_len)
  have "int (length s) \<le> int (padded_length (int (length s)))"
    by (rule le_padded_length) simp
  then have "length s \<le> padded_length (int (length s))" by simp
  with f s show ?thesis by (simp add: fits_int_def)
qed

text \<open>
  Claim C3, amended. Whenever \<open>packNum\<close> returns, on success or on error, the bytes it
  returns have a length that is a multiple of 32; it returns 32 bytes for every numeric
  value. \<open>packBytesSlice\<close> returns a multiple of 32 bytes when \<open>0 \<le> l \<le> 2^63 - 32\<close> and
  the payload is no longer than \<open>ceil(l/32)*32\<close>. Whenever \<open>packElement\<close> returns, the bytes
  have a length that is a multiple of 32 for every tag and every value that fits: a byte
  value of at most 32 bytes for Address, FixedBytes and Function, a string or byte value
  of length at most \<open>2^63 - 32\<close> for String and Bytes; in the earlier revision, under the
  String tag, a value with \<^verbatim>\<open>Len()\<close> at most \<open>2^63 - 32\<close> whose rendering \<^verbatim>\<open>String()\<close> is no
  longer than \<open>ceil(Len()/32)*32\<close>, as every string of such a length is. A byte slice, a
  byte array or an address value of at most 32 bytes is packed into 32 bytes under
  Address, FixedBytes and Function.
\<close>

theorem result_length_multiple_of_32:
  "(packNum v = Return bs e \<longrightarrow> 32 dvd length bs)
   \<and> (packNum_p0 v = Return bs e \<longrightarrow> 32 dvd length bs)
   \<and> (numeric_value v = Some n \<longrightarrow>
        (\<exists>r. packNum v = Return r None \<and> packNum_p0 v = Return r None \<and> length r = 32))
   \<and> (0 \<le> sint l \<and> sint l \<le> 2 ^ 63 - 32 \<and> length p \<le> padded_length (sint l) \<longrightarrow>
        (\<exists>r. packBytesSlice p l = Return r None \<and> packBytesSlice_p0 p l = Return r None
           \<and> 32 dvd length r))
   \<and> (fits t v \<and> packElement hex t v = Return bs e \<longrightarrow> 32 dvd length bs)
   \<and> (fits_p0 t v \<and> packElement_p0 hex t v = Return bs e \<longrightarrow> 32 dvd length bs)
   \<and> (fits_int (length s) \<longrightarrow> fits StringTy (VString tn s) \<and> fits_p0 StringTy (VString tn s))
   \<and> ((t = AddressTy \<or> t = FixedBytesTy \<or> t = FunctionTy)
        \<and> byte_payload v = Some b \<and> length b \<le> 32 \<longrightarrow>
        (\<exists>r. packElement hex t v = Return r None \<and> packElement_p0 hex t v = Return r None
           \<and> length r = 32))"
proof (intro conjI impI)
  assume "packNum v = Return bs e"
  then show "32 dvd length bs" by (rule packNum_dvd)
next
  assume "packNum_p0 v = Return bs e"
  then show "32 dvd length bs" by (rule packNum_p0_dvd)
next
  assume "numeric_value v = Some n"
  then show "\<exists>r. packNum v = Return r None \<and> packNum_p0 v = Return r None \<and> length r = 32"
    by (simp add: packNum_numeric length_U256Bytes)
next
  assume a: "0 \<le> sint l \<and> sint l \<le> 2 ^ 63 - 32 \<and> length p \<le> padded_length (sint l)"
  then have "0 \<le> sint l" "sint l \<le> 2 ^ 63 - 32" "length p \<le> padded_length (sint l)"
    by simp_all
  from packBytesSlice_fit [OF this]
  show "\<exists>r. packBytesSlice p l = Return r None \<and> packBytesSlice_p0 p l = Return r None
           \<and> 32 dvd length r"
    by blast
next
  assume "fits t v \<and> packElement hex t v = Return bs e"
  then show "32 dvd length bs" using packElement_dvd by blast
next
  assume "fits_p0 t v \<and> packElement_p0 hex t v = Return bs e"
  then show "32 dvd length bs" using packElement_p0_dvd by blast
next
  assume "fits_int (length s)"
  then show "fits StringTy (VString tn s)" and "fits_p0 StringTy (VString tn s)"
    using fits_String by blast+
next
  assume "(t = AddressTy \<or> t = FixedBytesTy \<or> t = FunctionTy)
        \<and> byte_payload v = Some b \<and> length b \<le> 32"
  then show "\<exists>r. packElement hex t v = Return r None \<and> packElement_p0 hex t v = Return r None
           \<and> length r = 32"
    using word_payload by blast
qed

lemma replicate_30:
  "replicate 30 x = [x,x,x,x,x,x,x,x,x,x,x,x,x,x,x,x,x,x,x,x,x,x,x,x,x,x,x,x,x,x]"
  by (simp add: numeral_eq_Suc)

theorem result_length_multiple_of_32_witness:
  "numeric_value (VInt64 Plain 5) = Some 5
   \<and> packNum (VInt64 Plain 5) = Return (U256Bytes 5) None
   \<and> packNum_p0 (VInt64 Plain 5) = Return (U256Bytes 5) None
   \<and> 32 dvd length (U256Bytes 5)
   \<and> (0 \<le> sint (2 :: 64 word) \<and> sint (2 :: 64 word) \<le> 2 ^ 63 - 32
        \<and> length [104, 105 :: byte] \<le> padded_length (sint (2 :: 64 word)))
   \<and> (\<exists>r. packBytesSlice [104, 105] 2 = Return r None
         \<and> packBytesSlice_p0 [104, 105] 2 = Return r None \<and> 32 dvd length r)
   \<and> fits FixedBytesTy (VByteArray Plain [1, 2])
   \<and> fits_p0 FixedBytesTy (VByteArray Plain [1, 2])
   \<and> byte_payload (VByteArray Plain [1, 2]) = Some [1, 2] \<and> length [1, 2 :: byte] \<le> 32
   \<and> packElement hexLower FixedBytesTy (VByteArray Plain [1, 2])
       = Return ([1, 2] @ replicate 30 0) None
   \<and> packElement_p0 hexLower FixedBytesTy (VByteArray Plain [1, 2])
       = Return ([1, 2] @ replicate 30 0) None
   \<and> 32 dvd length ([1, 2] @ replicate 30 0 :: byte list)
   \<and> (\<exists>r. packElement hexLower FixedBytesTy (VByteArray Plain [1, 2]) = Return r None
         \<and> packElement_p0 hexLower FixedBytesTy (VByteArray Plain [1, 2]) = Return r None
         \<and> length r = 32)
   \<and> (\<exists>r. packNum (VInt64 Plain 5) = Return r None \<and> packNum_p0 (VInt64 Plain 5) = Return r None
         \<and> length r = 32)
   \<and> fits_int (length ''hi'')
   \<and> fits StringTy (VString Plain ''hi'') \<and> fits_p0 StringTy (VString Plain ''hi'')"
proof -
  have n: "numeric_value (VInt64 Plain 5) = Some 5" by simp
  have pn: "packNum (VInt64 Plain 5) = Return (U256Bytes 5) None"
    "packNum_p0 (VInt64 Plain 5) = Return (U256Bytes 5) None"
    by (simp_all add: packNum_def packNum_p0_def)
  have h: "0 \<le> sint (2 :: 64 word) \<and> sint (2 :: 64 word) \<le> 2 ^ 63 - 32
        \<and> length [104, 105 :: byte] \<le> padded_length (sint (2 :: 64 word))"
    by (simp add: padded_length_2)
  have f: "fits FixedBytesTy (VByteArray Plain [1, 2])"
    "fits_p0 FixedBytesTy (VByteArray Plain [1, 2])"
    by (simp_all add: fits_word_def)
  have b: "byte_payload (VByteArray Plain [1, 2]) = Some [1, 2] \<and> length [1, 2 :: byte] \<le> 32"
    by simp
  have pe: "packElement hexLower FixedBytesTy (VByteArray Plain [1, 2])
       = Return ([1, 2] @ replicate 30 0) None"
    "packElement_p0 hexLower FixedBytesTy (VByteArray Plain [1, 2])
       = Return ([1, 2] @ replicate 30 0) None"
    by (simp_all add: arrayToSlice_def RightPadBytes_def)
  have s: "fits_int (length ''hi'')" by (simp add: fits_int_def)
  have d: "32 dvd length (U256Bytes 5)
      \<and> (\<exists>r. packNum (VInt64 Plain 5) = Return r None \<and> packNum_p0 (VInt64 Plain 5) = Return r None
         \<and> length r = 32)"
    using n pn(1)
      result_length_multiple_of_32 [where v = "VInt64 Plain 5" and bs = "U256Bytes 5" and e = None
        and n = 5]
    by blast
  have d2: "32 dvd length ([1, 2] @ replicate 30 0 :: byte list)
      \<and> (\<exists>r. packBytesSlice [104, 105] 2 = Return r None
         \<and> packBytesSlice_p0 [104, 105] 2 = Return r None \<and> 32 dvd length r)
      \<and> (\<exists>r. packElement hexLower FixedBytesTy (VByteArray Plain [1, 2]) = Return r None
         \<and> packElement_p0 hexLower FixedBytesTy (VByteArray Plain [1, 2]) = Return r None
         \<and> length r = 32)
      \<and> fits StringTy (VString Plain ''hi'') \<and> fits_p0 StringTy (VString Plain ''hi'')"
    using h f b pe s
      result_length_multiple_of_32 [where v = "VByteArray Plain [1, 2]" and t = FixedBytesTy
        and hex = hexLower and bs = "[1, 2] @ replicate 30 0" and e = None and l = 2
        and p = "[104, 105]" and s = "''hi''" and tn = Plain and b = "[1, 2]"]
    by blast
  show ?thesis using n pn h f b pe s d d2 by blast
qed

text \<open>
  Claim C3 as stated fails where the payload exceeds its target: a one-byte payload of
  logical length 0 gives 33 bytes, a FixedBytes value of 33 bytes gives 33 bytes, and
  the earlier revision packs an empty \<^verbatim>\<open>[]int\<close> under the String tag into 45 bytes, the
  length word and the 13 bytes of its rendering.
\<close>

theorem result_length_counterexample:
  "packBytesSlice [1] 0 = Return (U256Bytes 0 @ [1]) None
   \<and> \<not> 32 dvd length (U256Bytes 0 @ [1 :: byte])
   \<and> packElement hexLower FixedBytesTy (VBytes Plain (replicate 33 1))
       = Return (replicate 33 1) None
   \<and> \<not> 32 dvd length (replicate 33 (1 :: byte))
   \<and> packElement_p0 hexLower StringTy (VSlice ''[]int'' 0)
       = Return (U256Bytes 0 @ bytes_of ''<[]int Value>'') None
   \<and> length (U256Bytes 0 @ bytes_of ''<[]int Value>'') = 45
   \<and> \<not> 32 dvd length (U256Bytes 0 @ bytes_of ''<[]int Value>'')"
proof -
  have t: "sint (go_div ((0 :: 64 word) + 31) 32 * 32) = 0"
    by (simp add: go_div_def signed_divide_int_def)
  have a: "packBytesSlice [1] 0 = Return (U256Bytes 0 @ [1]) None"
    using t by (simp add: packBytesSlice_eq RightPadBytes_def)
  have b: "packElement hexLower FixedBytesTy (VBytes Plain (replicate 33 1))
       = Return (replicate 33 1) None"
    by (simp add: arrayToSlice_def RightPadBytes_def)
  have c: "packElement_p0 hexLower StringTy (VSlice ''[]int'' 0)
       = Return (U256Bytes 0 @ bytes_of ''<[]int Value>'') None"
    using t by (simp add: packBytesSlice_p0_eq RightPadBytes_def length_bytes_of)
  have d: "length (U256Bytes 0 @ [1 :: byte]) = 33"
    "length (U256Bytes 0 @ bytes_of ''<[]int Value>'') = 45"
    by (simp_all add: length_U256Bytes length_bytes_of)
  show ?thesis using a b c d by simp
qed

section \<open>Addresses\<close>

lemma replicate_20:
  "replicate 20 x = [x,x,x,x,x,x,x,x,x,x,x,x,x,x,x,x,x,x,x,x]"
  by (simp add: numeral_eq_Suc)

lemma FromHex_zero: "FromHex zeroAddressString = replicate 20 0"
  by (simp add: FromHex_def zeroAddressString_def hex_digit_def Let_def replicate_20)

lemma HexToAddress_zero: "HexToAddress zeroAddressString = replicate 20 0"
  by (simp add: HexToAddress_def FromHex_zero BytesToAddress_def)

lemma addressOfString_string:
  "addressOfString hex (VString Plain s) =
     (if s \<noteq> zeroAddressString \<and> hex (HexToAddress s) \<noteq> s
      then Inl (Return [] (Some InvalidAddress)) else Inr (VAddress (HexToAddress s)))"
  "addressOfString_p0 hex (VString Plain s) =
     (if s \<noteq> zeroAddressString \<and> hex (HexToAddress s) \<noteq> s
      then Inl (Return [] (Some InvalidAddress)) else Inr (VAddress (HexToAddress s)))"
  by (simp_all add: addressOfString_def addressOfString_p0_def)

text \<open>
  Claim C4. When \<open>packElement\<close> with the Address tag receives a string: if the canonical
  hexadecimal rendering \<open>hex\<close> of the parsed 20-byte address differs from the string and
  the string is not the literal all-zero address, both revisions return the error
  InvalidAddress with no bytes; the all-zero address string gives the 32-byte zero word
  and no error, whatever the rendering is.
\<close>

theorem packElement_Address_string:
  "(hex (HexToAddress s) \<noteq> s \<and> s \<noteq> zeroAddressString \<longrightarrow>
       packElement hex AddressTy (VString Plain s) = Return [] (Some InvalidAddress)
     \<and> packElement_p0 hex AddressTy (VString Plain s) = Return [] (Some InvalidAddress))
   \<and> packElement hex AddressTy (VString Plain zeroAddressString) = Return (replicate 32 0) None
   \<and> packElement_p0 hex AddressTy (VString Plain zeroAddressString)
       = Return (replicate 32 0) None"
proof -
  have "LeftPadBytes (replicate 20 0) 32 = replicate 32 0"
    by (simp add: LeftPadBytes_def flip: replicate_add)
  then show ?thesis
    by (simp add: addressOfString_string HexToAddress_zero)
qed

lemma length_hexLower: "length (hexLower b) = 2 + 2 * length b"
  by (induction b) (simp_all add: hexLower_def)

theorem packElement_Address_string_witness:
  "hexLower (HexToAddress ''0xAB'') \<noteq> ''0xAB'' \<and> ''0xAB'' \<noteq> zeroAddressString
   \<and> packElement hexLower AddressTy (VString Plain ''0xAB'') = Return [] (Some InvalidAddress)
   \<and> packElement_p0 hexLower AddressTy (VString Plain ''0xAB'')
       = Return [] (Some InvalidAddress)"
proof -
  have "length (hexLower (HexToAddress ''0xAB'')) = 42"
    by (simp add: length_hexLower length_HexToAddress)
  then have h: "hexLower (HexToAddress ''0xAB'') \<noteq> ''0xAB''" by auto
  have z: "''0xAB'' \<noteq> zeroAddressString" by (simp add: zeroAddressString_def)
  show ?thesis
    using h z packElement_Address_string [of hexLower "''0xAB''"] by blast
qed

section \<open>Decimal strings as numbers\<close>

text \<open>
  Claim C5, amended. For every value of type \<^verbatim>\<open>string\<close> given to \<open>packNum\<close>, in both
  revisions: a base-10 integer literal with an optional leading sign, \<^verbatim>\<open>-\<close> or \<^verbatim>\<open>+\<close>, is
  parsed and encoded as the 32-byte word of its value, the word that \<open>packNum\<close> gives for
  that integer, and every other string fails with InvalidNumericString and no bytes. A
  literal with an optional leading \<^verbatim>\<open>-\<close> only is such a literal, with the same value.
\<close>

theorem packNum_decimal_string:
  "packNum (VString Plain s) =
     (case signed_decimal s of
        None \<Rightarrow> Return [] (Some InvalidNumericString)
      | Some n \<Rightarrow> packNum (VBigInt n))
   \<and> packNum_p0 (VString Plain s) =
     (case signed_decimal s of
        None \<Rightarrow> Return [] (Some InvalidNumericString)
      | Some n \<Rightarrow> packNum_p0 (VBigInt n))
   \<and> (signed_decimal s = Some n \<longrightarrow>
        packNum (VString Plain s) = Return (U256Bytes n) None
      \<and> packNum_p0 (VString Plain s) = Return (U256Bytes n) None
      \<and> length (U256Bytes n) = 32 \<and> int (be_value (U256Bytes n)) = n mod 2 ^ 256)
   \<and> (decimal_literal s = Some n \<longrightarrow> signed_decimal s = Some n)"
proof (intro conjI impI)
  show "packNum (VString Plain s) =
     (case signed_decimal s of
        None \<Rightarrow> Return [] (Some InvalidNumericString)
      | Some n \<Rightarrow> packNum (VBigInt n))"
    by (simp add: SetString_eq split: option.split)
  show "packNum_p0 (VString Plain s) =
     (case signed_decimal s of
        None \<Rightarrow> Return [] (Some InvalidNumericString)
      | Some n \<Rightarrow> packNum_p0 (VBigInt n))"
    by (simp add: SetString_eq split: option.split)
next
  assume "signed_decimal s = Some n"
  then show "packNum (VString Plain s) = Return (U256Bytes n) None"
    and "packNum_p0 (VString Plain s) = Return (U256Bytes n) None"
    by (simp_all add: SetString_eq)
next
  show "length (U256Bytes n) = 32" by (rule length_U256Bytes)
  show "int (be_value (U256Bytes n)) = n mod 2 ^ 256" by (rule be_value_U256Bytes)
next
  assume "decimal_literal s = Some n"
  then have "SetString s = Some n" by (rule decimal_literal_SetString)
  then show "signed_decimal s = Some n" by (simp add: SetString_eq)
qed

lemmas eval_decimal = decimal_literal_def signed_decimal_def unsigned_decimal_def digit_code
  decimal_value_def

theorem packNum_decimal_string_witness:
  "decimal_literal ''-12'' = Some (- 12)
   \<and> signed_decimal ''-12'' = Some (- 12)
   \<and> packNum (VString Plain ''-12'') = Return (U256Bytes (- 12)) None
   \<and> packNum_p0 (VString Plain ''-12'') = Return (U256Bytes (- 12)) None
   \<and> signed_decimal ''abc'' = None
   \<and> packNum (VString Plain ''abc'') = Return [] (Some InvalidNumericString)
   \<and> packNum_p0 (VString Plain ''abc'') = Return [] (Some InvalidNumericString)"
proof -
  have h: "decimal_literal ''-12'' = Some (- 12)" by (simp add: eval_decimal)
  have a: "signed_decimal ''abc'' = None" by (simp add: eval_decimal)
  have "signed_decimal ''-12'' = Some (- 12)
      \<and> packNum (VString Plain ''-12'') = Return (U256Bytes (- 12)) None
      \<and> packNum_p0 (VString Plain ''-12'') = Return (U256Bytes (- 12)) None"
    using h packNum_decimal_string [of "''-12''" "- 12"] by blast
  moreover have "packNum (VString Plain ''abc'') = Return [] (Some InvalidNumericString)
      \<and> packNum_p0 (VString Plain ''abc'') = Return [] (Some InvalidNumericString)"
    using a packNum_decimal_string [of "''abc''" 0]
    by (simp del: packNum_VString)
  ultimately show ?thesis using h a by blast
qed

text \<open>
  Claim C5 as stated fails on a leading plus sign: \<^verbatim>\<open>+5\<close> is no literal with an optional
  leading minus, and it is packed as the number 5 with no error.
\<close>

theorem packNum_plus_sign_counterexample:
  "decimal_literal ''+5'' = None
   \<and> packNum (VString Plain ''+5'') = Return (U256Bytes 5) None
   \<and> packNum_p0 (VString Plain ''+5'') = Return (U256Bytes 5) None
   \<and> packNum (VString Plain ''+5'') \<noteq> Return [] (Some InvalidNumericString)
   \<and> packNum_p0 (VString Plain ''+5'') \<noteq> Return [] (Some InvalidNumericString)"
proof -
  have "decimal_literal ''+5'' = None" by (simp add: eval_decimal)
  moreover have "SetString ''+5'' = Some 5" by (simp add: SetString_eq eval_decimal)
  ultimately show ?thesis by simp
qed

section \<open>Values that are no numbers\<close>

text \<open>
  Claim C6. A value that is no number is to fail with UnsupportedNumericType and no
  bytes. The code does so for a boolean, in both revisions, and the earlier revision
  does so for the zero Value. It does not for a pointer that is no \<^verbatim>\<open>*big.Int\<close>: in the
  case \<^verbatim>\<open>reflect.Ptr\<close> the type assertion \<^verbatim>\<open>.(*big.Int)\<close> has no \<^verbatim>\<open>ok\<close>, and \<open>packNum\<close>
  panics on a \<^verbatim>\<open>*int\<close> in both revisions, where the \<^verbatim>\<open>default\<close> case of \<^verbatim>\<open>pack.go\<close> tests
  the same assertion with \<^verbatim>\<open>ok\<close>. In \<^verbatim>\<open>pack.go\<close> the \<^verbatim>\<open>default\<close> case calls
  \<^verbatim>\<open>Interface()\<close> on any value and panics on the zero Value.
\<close>

theorem packNum_unchecked_assertion:
  "packNum (VPtr ''*int'') = Panic
   \<and> packNum_p0 (VPtr ''*int'') = Panic
   \<and> packNum VInvalid = Panic
   \<and> packNum_p0 VInvalid = Return [] (Some UnsupportedNumericType)
   \<and> packNum (VBool Plain True) = Return [] (Some UnsupportedNumericType)
   \<and> packNum_p0 (VBool Plain True) = Return [] (Some UnsupportedNumericType)"
  by (simp add: packNum_def packNum_p0_def)

section \<open>Padding direction\<close>

lemma Address_of_string:
  assumes "s = zeroAddressString \<or> hex (HexToAddress s) = s"
  shows "packElement hex AddressTy (VString Plain s)
      = Return (left_pad (HexToAddress s) 32) None"
    and "packElement_p0 hex AddressTy (VString Plain s)
      = Return (left_pad (HexToAddress s) 32) None"
  using assms by (auto simp: addressOfString_string LeftPadBytes_32)

lemma left_pad_20: "length a = 20 \<Longrightarrow> left_pad a 32 = replicate 12 0 @ a"
  by (simp add: left_pad_def)

text \<open>
  Claim C7. \<open>packElement\<close> pads a 20-byte address on the left with 12 zero bytes to the
  32-byte word, for an address given as a byte slice, a byte array or an address value
  and for the address parsed from an accepted string; for FixedBytes and Function it
  pads the byte value on the right with zero bytes to 32 bytes. Both revisions agree.
\<close>

theorem packElement_padding_direction:
  "(byte_payload v = Some a \<and> length a = 20 \<longrightarrow>
       packElement hex AddressTy v = Return (replicate 12 0 @ a) None
     \<and> packElement_p0 hex AddressTy v = Return (replicate 12 0 @ a) None)
   \<and> (s = zeroAddressString \<or> hex (HexToAddress s) = s \<longrightarrow>
       packElement hex AddressTy (VString Plain s)
         = Return (replicate 12 0 @ HexToAddress s) None
     \<and> packElement_p0 hex AddressTy (VString Plain s)
         = Return (replicate 12 0 @ HexToAddress s) None)
   \<and> (byte_payload w = Some b \<longrightarrow>
       packElement hex FixedBytesTy w = Return (b @ replicate (32 - length b) 0) None
     \<and> packElement_p0 hex FixedBytesTy w = Return (b @ replicate (32 - length b) 0) None
     \<and> packElement hex FunctionTy w = Return (b @ replicate (32 - length b) 0) None
     \<and> packElement_p0 hex FunctionTy w = Return (b @ replicate (32 - length b) 0) None)"
proof (intro conjI impI)
  assume a: "byte_payload v = Some a \<and> length a = 20"
  then show "packElement hex AddressTy v = Return (replicate 12 0 @ a) None"
    by (simp add: Address_payload left_pad_20 del: packElement.simps)
  from a show "packElement_p0 hex AddressTy v = Return (replicate 12 0 @ a) None"
    by (simp add: Address_payload left_pad_20 del: packElement_p0.simps)
next
  assume c: "s = zeroAddressString \<or> hex (HexToAddress s) = s"
  have l: "left_pad (HexToAddress s) 32 = replicate 12 0 @ HexToAddress s"
    by (simp add: left_pad_20 length_HexToAddress)
  from c show "packElement hex AddressTy (VString Plain s)
      = Return (replicate 12 0 @ HexToAddress s) None"
    by (simp only: Address_of_string l)
  from c show "packElement_p0 hex AddressTy (VString Plain s)
      = Return (replicate 12 0 @ HexToAddress s) None"
    by (simp only: Address_of_string l)
next
  assume b: "byte_payload w = Some b"
  then show "packElement hex FixedBytesTy w = Return (b @ replicate (32 - length b) 0) None"
    and "packElement_p0 hex FixedBytesTy w = Return (b @ replicate (32 - length b) 0) None"
    and "packElement hex FunctionTy w = Return (b @ replicate (32 - length b) 0) None"
    and "packElement_p0 hex FunctionTy w = Return (b @ replicate (32 - length b) 0) None"
    by (simp_all only: FixedBytes_payload right_pad_def)
qed

lemma replicate_12: "replicate 12 x = [x,x,x,x,x,x,x,x,x,x,x,x]"
  by (simp add: numeral_eq_Suc)

theorem packElement_padding_direction_witness:
  "(byte_payload (VAddress [1,2,3,4,5,6,7,8,9,10,11,12,13,14,15,16,17,18,19,20])
      = Some [1,2,3,4,5,6,7,8,9,10,11,12,13,14,15,16,17,18,19,20]
    \<and> length [1,2,3,4,5,6,7,8,9,10,11,12,13,14,15,16,17,18,19,20 :: byte] = 20)
   \<and> packElement hexLower AddressTy
        (VAddress [1,2,3,4,5,6,7,8,9,10,11,12,13,14,15,16,17,18,19,20])
      = Return [0,0,0,0,0,0,0,0,0,0,0,0,1,2,3,4,5,6,7,8,9,10,11,12,13,14,15,16,17,18,19,20] None
   \<and> packElement hexLower AddressTy (VString Plain zeroAddressString)
      = Return (replicate 12 0 @ HexToAddress zeroAddressString) None
   \<and> byte_payload (VByteArray Plain [1, 2]) = Some [1, 2]
   \<and> packElement hexLower FixedBytesTy (VByteArray Plain [1, 2])
      = Return [1,2,0,0,0,0,0,0,0,0,0,0,0,0,0,0,0,0,0,0,0,0,0,0,0,0,0,0,0,0,0,0] None
   \<and> packElement_p0 hexLower FunctionTy (VByteArray Plain [1, 2])
      = Return [1,2,0,0,0,0,0,0,0,0,0,0,0,0,0,0,0,0,0,0,0,0,0,0,0,0,0,0,0,0,0,0] None"
proof -
  let ?a = "[1,2,3,4,5,6,7,8,9,10,11,12,13,14,15,16,17,18,19,20 :: byte]"
  have h: "byte_payload (VAddress ?a) = Some ?a \<and> length ?a = 20" by simp
  have z: "zeroAddressString = zeroAddressString
      \<or> hexLower (HexToAddress zeroAddressString) = zeroAddressString" by simp
  have w: "byte_payload (VByteArray Plain [1, 2]) = Some [1, 2]" by simp
  show ?thesis
    using h z w
      packElement_padding_direction
        [of "VAddress ?a" ?a hexLower zeroAddressString "VByteArray Plain [1, 2]" "[1, 2]"]
    by (simp add: replicate_12 replicate_30 del: packElement.simps packElement_p0.simps)
qed

section \<open>Raw addresses of any length\<close>

lemma Address_named_bytes:
  "packElement hex AddressTy (VBytes (Named nm) c) = Return [] (Some InvalidAddress)"
  "packElement_p0 hex AddressTy (VBytes (Named nm) c) = Return (left_pad c 32) None"
  by (simp_all add: addressOfString_def addressOfString_p0_def arrayToSlice_def LeftPadBytes_32)

text \<open>
  Claim C10, amended. \<open>packElement\<close> with the Address tag checks no length of a raw byte
  value: for every \<^verbatim>\<open>[]byte\<close>, every byte array and every address value \<open>b\<close>, of any
  length, both revisions return \<open>b\<close> padded on the left with zero bytes, with no error;
  for a length up to 32 the result has 32 bytes. A byte slice of a defined type is
  packed in the same way by the earlier revision only: \<^verbatim>\<open>pack.go\<close> asserts the type
  \<^verbatim>\<open>[]uint8\<close> and returns InvalidAddress for it.
\<close>

theorem packElement_Address_any_length:
  "(byte_payload v = Some b \<longrightarrow>
      packElement hex AddressTy v = Return (left_pad b 32) None
    \<and> packElement_p0 hex AddressTy v = Return (left_pad b 32) None
    \<and> (length b \<le> 32 \<longrightarrow> length (left_pad b 32) = 32))
   \<and> packElement hex AddressTy (VBytes (Named nm) c) = Return [] (Some InvalidAddress)
   \<and> packElement_p0 hex AddressTy (VBytes (Named nm) c) = Return (left_pad c 32) None"
proof (intro conjI impI)
  assume p: "byte_payload v = Some b"
  then show "packElement hex AddressTy v = Return (left_pad b 32) None"
    by (rule Address_payload)
  from p show "packElement_p0 hex AddressTy v = Return (left_pad b 32) None"
    by (rule Address_payload)
next
  assume "length b \<le> 32"
  then show "length (left_pad b 32) = 32" by (rule length_left_pad)
next
  show "packElement hex AddressTy (VBytes (Named nm) c) = Return [] (Some InvalidAddress)"
    by (rule Address_named_bytes)
  show "packElement_p0 hex AddressTy (VBytes (Named nm) c) = Return (left_pad c 32) None"
    by (rule Address_named_bytes)
qed

theorem packElement_Address_any_length_witness:
  "byte_payload (VBytes Plain [1, 2]) = Some [1, 2] \<and> length [1, 2 :: byte] \<le> 32
   \<and> packElement hexLower AddressTy (VBytes Plain [1, 2])
      = Return [0,0,0,0,0,0,0,0,0,0,0,0,0,0,0,0,0,0,0,0,0,0,0,0,0,0,0,0,0,0,1,2] None
   \<and> packElement_p0 hexLower AddressTy (VBytes Plain [1, 2])
      = Return [0,0,0,0,0,0,0,0,0,0,0,0,0,0,0,0,0,0,0,0,0,0,0,0,0,0,0,0,0,0,1,2] None
   \<and> length [0,0,0,0,0,0,0,0,0,0,0,0,0,0,0,0,0,0,0,0,0,0,0,0,0,0,0,0,0,0,1,2 :: byte] = 32"
proof -
  have h: "byte_payload (VBytes Plain [1, 2]) = Some [1, 2]" by simp
  have l: "left_pad [1, 2 :: byte] 32
      = [0,0,0,0,0,0,0,0,0,0,0,0,0,0,0,0,0,0,0,0,0,0,0,0,0,0,0,0,0,0,1,2]"
    by (simp add: left_pad_def replicate_30)
  show ?thesis
    using h packElement_Address_any_length [of "VBytes Plain [1, 2]" "[1, 2]" hexLower]
    by (simp add: l del: packElement.simps packElement_p0.simps)
qed

text \<open>
  Claim C10 as stated fails in \<^verbatim>\<open>pack.go\<close> on a byte slice of a defined type: the two
  bytes of a \<^verbatim>\<open>hexutil.Bytes\<close> are not packed, InvalidAddress is returned; the earlier
  revision packs them.
\<close>

theorem packElement_Address_named_counterexample:
  "packElement hexLower AddressTy (VBytes (Named ''hexutil.Bytes'') [1, 2])
     = Return [] (Some InvalidAddress)
   \<and> packElement hexLower AddressTy (VBytes (Named ''hexutil.Bytes'') [1, 2])
     \<noteq> Return (left_pad [1, 2] 32) None
   \<and> packElement_p0 hexLower AddressTy (VBytes (Named ''hexutil.Bytes'') [1, 2])
     = Return (left_pad [1, 2] 32) None"
  by (simp add: Address_named_bytes del: packElement.simps packElement_p0.simps)

section \<open>Strings\<close>

lemma packBytesSlice_len:
  assumes "fits_int (length p)"
  shows "packBytesSlice p (len p)
      = Return (U256Bytes (int (length p)) @ right_pad p (padded_length (int (length p)))) None"
    and "packBytesSlice_p0 p (len p)
      = Return (U256Bytes (int (length p)) @ right_pad p (padded_length (int (length p)))) None"
proof -
  have s: "sint (len p) = int (length p)" using assms by (rule sint_len)
  have "0 \<le> sint (len p)" "sint (len p) \<le> 2 ^ 63 - 32"
    using assms by (simp_all add: s fits_int_def)
  then have "sint (go_div (len p + 31) 32 * 32) = int (padded_length (sint (len p)))"
    by (rule pad_target_padded_length)
  then show "packBytesSlice p (len p)
      = Return (U256Bytes (int (length p)) @ right_pad p (padded_length (int (length p)))) None"
    and "packBytesSlice_p0 p (len p)
      = Return (U256Bytes (int (length p)) @ right_pad p (padded_length (int (length p)))) None"
    by (simp_all add: packBytesSlice_eq packBytesSlice_p0_eq RightPadBytes_right_pad s)
qed

lemma packElement_p0_String_no_error:
  "packElement_p0 hex StringTy v \<noteq> Return bs (Some e)"
  by (cases "Value_Len v") (simp_all add: packBytesSlice_p0_eq)

lemma readable_Interface: "readable v \<Longrightarrow> \<exists>x. Interface v = Some x"
  by (cases v rule: Interface.cases) simp_all

lemma String_not_string:
  assumes "readable v" and "go_string v = None"
  shows "packElement hex StringTy v = Return [] (Some TypeMismatch)"
proof -
  from assms(1) obtain x where x: "Interface v = Some x"
    using readable_Interface by blast
  have "as_string x = None"
  proof (cases "as_string x")
    case (Some s)
    with x have "go_string v = Some s" by (rule Interface_string)
    with assms(2) show ?thesis by simp
  qed simp
  with x show ?thesis by simp
qed

lemma String_string:
  assumes "go_string v = Some s"
  shows "packElement hex StringTy v = packBytesSlice (bytes_of s) (len s)"
  using go_string_Interface [OF assms] by simp

lemma String_named: "packElement hex StringTy (VString (Named nm) s) = Return [] (Some TypeMismatch)"
  by simp

text \<open>
  Claim C8, amended. In \<^verbatim>\<open>pack.go\<close>, \<open>packElement\<close> with the String tag fails with
  TypeMismatch and no bytes for every value that \<^verbatim>\<open>Interface()\<close> can read and whose type
  is not \<^verbatim>\<open>string\<close>, a string of a defined type among them; for every value of type
  \<^verbatim>\<open>string\<close>, held as it is or in an interface, it returns the length-prefixed encoding
  \<open>packBytesSlice\<close> of its bytes with its byte length as the logical length. The earlier
  revision has no such check: it returns that encoding for every value of kind String, of
  the type \<^verbatim>\<open>string\<close> or of a defined type, and it returns no error under the String tag
  for any value. For a length up to \<open>2^63 - 32\<close> the encoding is the length word and the
  bytes padded on the right to \<open>ceil(l/32)*32\<close>.
\<close>

theorem packElement_String:
  "(readable v \<and> go_string v = None \<longrightarrow>
      packElement hex StringTy v = Return [] (Some TypeMismatch))
   \<and> packElement hex StringTy (VString (Named nm) s) = Return [] (Some TypeMismatch)
   \<and> (go_string v = Some s \<longrightarrow>
        packElement hex StringTy v = packBytesSlice (bytes_of s) (len s))
   \<and> packElement_p0 hex StringTy (VString tn s) = packBytesSlice_p0 (bytes_of s) (len s)
   \<and> (fits_int (length s) \<longrightarrow>
        (go_string v = Some s \<longrightarrow>
           packElement hex StringTy v
             = Return (U256Bytes (int (length s))
                       @ right_pad (bytes_of s) (padded_length (int (length s)))) None)
      \<and> packElement_p0 hex StringTy (VString tn s)
          = Return (U256Bytes (int (length s))
                    @ right_pad (bytes_of s) (padded_length (int (length s)))) None)
   \<and> packElement_p0 hex StringTy v \<noteq> Return bs (Some e)"
proof (intro conjI impI)
  assume "readable v \<and> go_string v = None"
  then show "packElement hex StringTy v = Return [] (Some TypeMismatch)"
    using String_not_string by blast
next
  show "packElement hex StringTy (VString (Named nm) s) = Return [] (Some TypeMismatch)"
    by (rule String_named)
next
  assume "go_string v = Some s"
  then show "packElement hex StringTy v = packBytesSlice (bytes_of s) (len s)"
    by (rule String_string)
next
  show "packElement_p0 hex StringTy (VString tn s) = packBytesSlice_p0 (bytes_of s) (len s)"
    by simp
next
  assume "fits_int (length s)"
  then have f: "fits_int (length (bytes_of s))" by (simp add: length_bytes_of)
  assume "go_string v = Some s"
  then have "packElement hex StringTy v = packBytesSlice (bytes_of s) (len (bytes_of s))"
    by (simp only: String_string len_bytes_of)
  with packBytesSlice_len(1) [OF f]
  show "packElement hex StringTy v
          = Return (U256Bytes (int (length s))
                    @ right_pad (bytes_of s) (padded_length (int (length s)))) None"
    by (simp only: length_bytes_of)
next
  assume "fits_int (length s)"
  then have f: "fits_int (length (bytes_of s))" by (simp add: length_bytes_of)
  from packBytesSlice_len(2) [OF f]
  show "packElement_p0 hex StringTy (VString tn s)
          = Return (U256Bytes (int (length s))
                    @ right_pad (bytes_of s) (padded_length (int (length s)))) None"
    by (simp add: len_bytes_of length_bytes_of)
next
  show "packElement_p0 hex StringTy v \<noteq> Return bs (Some e)"
    by (rule packElement_p0_String_no_error)
qed

theorem packElement_String_witness:
  "(readable (VBool Plain True) \<and> go_string (VBool Plain True) = None)
   \<and> packElement hexLower StringTy (VBool Plain True) = Return [] (Some TypeMismatch)
   \<and> fits_int (length ''hi'')
   \<and> go_string (VIface ''interface {}'' (BString ''hi'')) = Some ''hi''
   \<and> packElement hexLower StringTy (VIface ''interface {}'' (BString ''hi''))
      = Return (U256Bytes 2 @ [104, 105] @ replicate 30 0) None
   \<and> packElement_p0 hexLower StringTy (VString Plain ''hi'')
      = Return (U256Bytes 2 @ [104, 105] @ replicate 30 0) None"
proof -
  have h: "readable (VBool Plain True) \<and> go_string (VBool Plain True) = None" by simp
  have g: "go_string (VIface ''interface {}'' (BString ''hi'')) = Some ''hi''" by simp
  have f: "fits_int (length ''hi'')" by (simp add: fits_int_def)
  have r: "right_pad (bytes_of ''hi'') (padded_length 2) = [104, 105] @ replicate 30 0"
    by (simp add: right_pad_def padded_length_2 bytes_of_def)
  have "packElement hexLower StringTy (VBool Plain True) = Return [] (Some TypeMismatch)"
    using h packElement_String [of "VBool Plain True" hexLower] by blast
  moreover have "packElement hexLower StringTy (VIface ''interface {}'' (BString ''hi''))
          = Return (U256Bytes (int (length ''hi''))
                    @ right_pad (bytes_of ''hi'') (padded_length (int (length ''hi'')))) None
      \<and> packElement_p0 hexLower StringTy (VString Plain ''hi'')
          = Return (U256Bytes (int (length ''hi''))
                    @ right_pad (bytes_of ''hi'') (padded_length (int (length ''hi'')))) None"
    using g f
      packElement_String [where v = "VIface ''interface {}'' (BString ''hi'')"
        and hex = hexLower and s = "''hi''" and tn = Plain]
    by blast
  ultimately show ?thesis
    using h g f by (simp add: r del: packElement.simps packElement_p0.simps)
qed

text \<open>
  Claim C8 as stated fails on a string of a defined type, which \<^verbatim>\<open>pack.go\<close> rejects and
  the earlier revision packs, one of them against the claim however the type is read;
  and in the earlier revision an empty \<^verbatim>\<open>[]byte\<close>, no string, gives no TypeMismatch: its
  rendering is packed.
\<close>

theorem packElement_String_counterexample:
  "packElement hexLower StringTy (VString (Named ''myString'') ''hi'')
     = Return [] (Some TypeMismatch)
   \<and> packElement_p0 hexLower StringTy (VString (Named ''myString'') ''hi'')
     = Return (U256Bytes 2 @ [104, 105] @ replicate 30 0) None
   \<and> packElement_p0 hexLower StringTy (VBytes Plain [])
     = Return (U256Bytes 0 @ bytes_of ''<[]uint8 Value>'') None
   \<and> packElement_p0 hexLower StringTy (VBytes Plain []) \<noteq> Return [] (Some TypeMismatch)"
proof -
  have t0: "sint (go_div (len ([] :: byte list) + 31) 32 * 32) = 0"
    by (simp add: len_def go_div_def signed_divide_int_def)
  have t2: "sint (go_div (len ''hi'' + 31) 32 * 32) = 32"
    by (simp add: len_def go_div_def signed_divide_int_def)
  have a: "packElement_p0 hexLower StringTy (VString (Named ''myString'') ''hi'')
     = Return (U256Bytes 2 @ [104, 105] @ replicate 30 0) None"
    using t2 by (simp add: packBytesSlice_p0_eq RightPadBytes_def bytes_of_def len_def)
  have b: "packElement_p0 hexLower StringTy (VBytes Plain [])
     = Return (U256Bytes 0 @ bytes_of ''<[]uint8 Value>'') None"
    using t0 by (simp add: packBytesSlice_p0_eq RightPadBytes_def length_bytes_of len_def)
  show ?thesis using a b by simp
qed

section \<open>Errors carry no bytes\<close>

lemma packNum_error: "packNum v = Return bs (Some e) \<Longrightarrow> bs = []"
  using packNum_length [of v bs "Some e"] by auto

lemma packNum_p0_error: "packNum_p0 v = Return bs (Some e) \<Longrightarrow> bs = []"
  using packNum_p0_length [of v bs "Some e"] by auto

lemma packBytesSlice_no_error: "packBytesSlice p l \<noteq> Return bs (Some e)"
  by (simp add: packBytesSlice_eq)

lemma packBytesSlice_p0_no_error: "packBytesSlice_p0 p l \<noteq> Return bs (Some e)"
  by (simp add: packBytesSlice_p0_eq)

lemma addressOfString_Inl:
  "addressOfString hex v = Inl out \<Longrightarrow> out = Panic \<or> out = Return [] (Some InvalidAddress)"
  "addressOfString_p0 hex v = Inl out \<Longrightarrow> out = Panic \<or> out = Return [] (Some InvalidAddress)"
  by (auto simp: addressOfString_def addressOfString_p0_def Let_def
      split: option.splits bool.splits if_splits)

lemma packElement_error:
  assumes "packElement hex t v = Return bs (Some e)"
  shows "bs = []"
proof (cases t)
  case IntTy
  with assms show ?thesis by (simp add: packNum_error)
next
  case UintTy
  with assms show ?thesis by (simp add: packNum_error)
next
  case StringTy
  with assms show ?thesis
    by (simp add: packBytesSlice_no_error split: option.splits)
next
  case AddressTy
  with assms show ?thesis
    by (auto split: sum.splits option.splits dest: addressOfString_Inl)
next
  case BoolTy
  with assms show ?thesis by (simp split: option.splits if_splits)
next
  case BytesTy
  with assms show ?thesis
    by (simp add: packBytesSlice_no_error split: option.splits bool.splits)
next
  case FixedBytesTy
  with assms show ?thesis by (simp split: option.splits)
next
  case FunctionTy
  with assms show ?thesis by (simp split: option.splits)
qed (use assms in simp_all)

lemma packElement_p0_error:
  assumes "packElement_p0 hex t v = Return bs (Some e)"
  shows "bs = []"
proof (cases t)
  case IntTy
  with assms show ?thesis by (simp add: packNum_p0_error)
next
  case UintTy
  with assms show ?thesis by (simp add: packNum_p0_error)
next
  case StringTy
  with assms packElement_p0_String_no_error [of hex v bs e] show ?thesis
    by (simp del: packElement_p0.simps)
next
  case AddressTy
  with assms show ?thesis
    by (auto split: sum.splits option.splits dest: addressOfString_Inl)
next
  case BoolTy
  with assms show ?thesis by (simp split: option.splits if_splits)
next
  case BytesTy
  with assms show ?thesis
    by (simp add: packBytesSlice_p0_no_error split: option.splits bool.splits)
next
  case FixedBytesTy
  with assms show ?thesis by (simp split: option.splits)
next
  case FunctionTy
  with assms show ?thesis by (simp split: option.splits)
qed (use assms in simp_all)

text \<open>
  Claim C9. For \<open>packNum\<close>, \<open>packBytesSlice\<close> and \<open>packElement\<close>, in both revisions and for
  every input: whenever an error is returned, the byte result that comes with it is
  empty.
\<close>

theorem error_result_is_empty:
  "(packNum v = Return bs (Some e) \<longrightarrow> bs = [])
   \<and> (packNum_p0 v = Return bs (Some e) \<longrightarrow> bs = [])
   \<and> (packBytesSlice p l = Return bs (Some e) \<longrightarrow> bs = [])
   \<and> (packBytesSlice_p0 p l = Return bs (Some e) \<longrightarrow> bs = [])
   \<and> (packElement hex t w = Return bs (Some e) \<longrightarrow> bs = [])
   \<and> (packElement_p0 hex t w = Return bs (Some e) \<longrightarrow> bs = [])"
  using packNum_error [of v bs e] packNum_p0_error [of v bs e]
    packBytesSlice_no_error [of p l bs e] packBytesSlice_p0_no_error [of p l bs e]
    packElement_error [of hex t w bs e] packElement_p0_error [of hex t w bs e]
  by blast

theorem error_result_is_empty_witness:
  "packNum (VString Plain ''abc'') = Return [] (Some InvalidNumericString)
   \<and> packNum_p0 (VString Plain ''abc'') = Return [] (Some InvalidNumericString)
   \<and> packElement hexLower IntTy (VString Plain ''abc'') = Return [] (Some InvalidNumericString)
   \<and> packElement_p0 hexLower IntTy (VString Plain ''abc'')
       = Return [] (Some InvalidNumericString)
   \<and> packElement hexLower AddressTy (VString Plain ''abc'') = Return [] (Some InvalidAddress)
   \<and> packElement_p0 hexLower AddressTy (VString Plain ''abc'') = Return [] (Some InvalidAddress)"
proof -
  have n: "SetString ''abc'' = None" by (simp add: SetString_eq eval_decimal)
  have "length (hexLower (HexToAddress ''abc'')) = 42"
    by (simp add: length_hexLower length_HexToAddress)
  then have h: "hexLower (HexToAddress ''abc'') \<noteq> ''abc''" by auto
  have z: "''abc'' \<noteq> zeroAddressString" by (simp add: zeroAddressString_def)
  have a: "packNum (VString Plain ''abc'') = Return [] (Some InvalidNumericString)"
    "packNum_p0 (VString Plain ''abc'') = Return [] (Some InvalidNumericString)"
    "packElement hexLower IntTy (VString Plain ''abc'') = Return [] (Some InvalidNumericString)"
    "packElement_p0 hexLower IntTy (VString Plain ''abc'')
       = Return [] (Some InvalidNumericString)"
    using n by simp_all
  have b: "packElement hexLower AddressTy (VString Plain ''abc'')
       = Return [] (Some InvalidAddress)"
    "packElement_p0 hexLower AddressTy (VString Plain ''abc'') = Return [] (Some InvalidAddress)"
    using h z by (simp_all add: addressOfString_string)
  show ?thesis
    using a b
      error_result_is_empty [of "VString Plain ''abc''" "[]" InvalidNumericString "[]" 0
        hexLower IntTy "VString Plain ''abc''"]
      error_result_is_empty [of "VString Plain ''abc''" "[]" InvalidAddress "[]" 0
        hexLower AddressTy "VString Plain ''abc''"]
    by blast
qed

end
